theory Spec2Isabelle
  imports Complex_Main
begin

section \<open>Sample counts and sample buffers\<close>

text \<open>
  \<open>sampleCount\<close> wraps a signed 64-bit integer, buffer sizes and block sizes are
  \<open>size_t\<close>.  Sample counts are integers here and sizes are naturals; the sizes a track
  or an effect reports are far below the word size, so no wrap-around is modelled.  A
  subtraction on sizes is written with the guard under which the source performs it.
  Times and rates are double-precision numbers and are the reals they denote here.
  Comparing them is exact; adding, subtracting, dividing and rounding them is not the
  arithmetic of the reals, so these operations of the machine are parameters of the model
  (see the record of the engine's collaborators below).
\<close>

type_synonym sampleCount = int

text \<open>
  Modelled from the spec: \<open>limitSampleBufferSize\<close> is declared outside
  \<open>Effect.cpp\<close>; the spec reads it as \<open>min(bufferSize, inputRemaining)\<close>, a negative
  limit giving no samples.
\<close>

definition limitSampleBufferSize :: "nat \<Rightarrow> sampleCount \<Rightarrow> nat" where
  "limitSampleBufferSize bufferSize limit = nat (min (int bufferSize) (max 0 limit))"

text \<open>
  A row of a \<open>FloatBuffers\<close> object is a list of samples whose length is the allocated
  size; a \<open>float *\<close> into a row is an offset.  \<open>window\<close> is what a callee reads through
  such a pointer, \<open>write_at\<close> what it stores; a store beyond the allocation (undefined
  in the source) is dropped.
\<close>

definition window :: "nat \<Rightarrow> nat \<Rightarrow> 'a list \<Rightarrow> 'a list" where
  "window pos n buf = take n (drop pos buf)"

definition write_at :: "nat \<Rightarrow> 'a list \<Rightarrow> 'a list \<Rightarrow> 'a list" where
  "write_at pos vs buf = take (length buf) (take pos buf @ vs @ drop (pos + length vs) buf)"

text \<open>\<open>upd_rows_from i n g rows\<close>: the loop \<open>for (i = 0; i < n; i++) rows[i] = g i rows[i]\<close>.\<close>

fun upd_rows_from :: "nat \<Rightarrow> nat \<Rightarrow> (nat \<Rightarrow> 'b \<Rightarrow> 'b) \<Rightarrow> 'b list \<Rightarrow> 'b list" where
  "upd_rows_from i n g [] = []"
| "upd_rows_from i n g (r # rs) = (if i < n then g i r else r) # upd_rows_from (Suc i) n g rs"

definition upd_rows :: "nat \<Rightarrow> (nat \<Rightarrow> 'b \<Rightarrow> 'b) \<Rightarrow> 'b list \<Rightarrow> 'b list" where
  "upd_rows n g rows = upd_rows_from 0 n g rows"

text \<open>\<open>FloatBuffers::reinit(rows, cols)\<close>: fresh storage; its content is unspecified in
  the source until written, and is zero here.\<close>

definition reinit :: "nat \<Rightarrow> nat \<Rightarrow> ('a::zero) list list" where
  "reinit rows cols = replicate rows (replicate cols 0)"

section \<open>Tracks\<close>

datatype ChannelType = LeftChannel | RightChannel | MonoChannel

datatype ChannelName =
  ChannelNameEOL | ChannelNameMono | ChannelNameFrontLeft | ChannelNameFrontRight

text \<open>
  Modelled from the spec: the track classes are declared outside \<open>Effect.cpp\<close>.  A
  track is a Sample Source/Sink: one run of samples starting at time 0, with the flags
  the engine reads.  \<open>ident\<close> is the identity of the object (its address): the engine
  compares and stores track pointers.  \<open>GetLinked\<close> marks the first channel of a
  stereo pair, whose partner is the next track of the list.
\<close>

record 'a Track =
  ident :: nat
  IsWaveTrack :: bool
  GetSelected :: bool
  IsSyncLockSelected :: bool
  GetChannel :: ChannelType
  GetLinked :: bool
  GetRate :: real
  GetMaxBlockSize :: nat
  samples :: "'a list"


definition GetStartTime :: "'a Track \<Rightarrow> real" where
  "GetStartTime t = 0"

definition GetEndTime :: "'a Track \<Rightarrow> real" where
  "GetEndTime t = real (length (samples t)) / GetRate t"

text \<open>The spec: sample counts derive from \<open>time * rate\<close>, rounded to nearest integer.\<close>

definition TimeToLongSamples :: "'a Track \<Rightarrow> real \<Rightarrow> sampleCount" where
  "TimeToLongSamples t t0 = \<lfloor>t0 * GetRate t + 1 / 2\<rfloor>"

definition sample_at :: "('a::zero) list \<Rightarrow> sampleCount \<Rightarrow> 'a" where
  "sample_at xs p = (if 0 \<le> p \<and> p < int (length xs) then xs ! nat p else 0)"

text \<open>\<open>Get(buffer, start, len)\<close> reads \<open>len\<close> samples from \<open>start\<close>; positions outside the
  track read as silence.\<close>

definition WaveTrack_Get :: "('a::zero) Track \<Rightarrow> sampleCount \<Rightarrow> nat \<Rightarrow> 'a list" where
  "WaveTrack_Get t start n = map (\<lambda>k. sample_at (samples t) (start + int k)) [0..<n]"

text \<open>\<open>Set(buffer, start, len)\<close> overwrites the samples of the track from \<open>start\<close> with the
  first \<open>len\<close> samples of the buffer; positions outside the track are not written.\<close>

definition WaveTrack_Set :: "'a list \<Rightarrow> sampleCount \<Rightarrow> nat \<Rightarrow> 'a Track \<Rightarrow> 'a Track" where
  "WaveTrack_Set buf start n t =
     t\<lparr>samples :=
         map (\<lambda>p. let k = int p - start
                   in if 0 \<le> k \<and> k < int n \<and> nat k < length buf then buf ! nat k
                      else samples t ! p)
             [0..<length (samples t)]\<rparr>"

text \<open>\<open>Append(buffer, len)\<close> adds the first \<open>len\<close> samples of the buffer at the end.\<close>

definition WaveTrack_Append :: "'a list \<Rightarrow> nat \<Rightarrow> 'a Track \<Rightarrow> 'a Track" where
  "WaveTrack_Append buf n t = t\<lparr>samples := samples t @ take n buf\<rparr>"

text \<open>\<open>ClearAndPaste(t0, t1, src)\<close>: the spec's splice, replacing exactly \<open>[t0, t1)\<close> with
  the samples of \<open>src\<close> and preserving the material outside the range.\<close>

definition WaveTrack_ClearAndPaste :: "real \<Rightarrow> real \<Rightarrow> 'a Track \<Rightarrow> 'a Track \<Rightarrow> 'a Track" where
  "WaveTrack_ClearAndPaste t0 t1 src t =
     (let s0 = nat (TimeToLongSamples t t0); s1 = max s0 (nat (TimeToLongSamples t t1))
      in t\<lparr>samples := take s0 (samples t) @ samples src @ drop s1 (samples t)\<rparr>)"

text \<open>\<open>NewWaveTrack(format, rate)\<close>: an empty wave track, not a member of any list.\<close>

definition NewWaveTrack :: "nat \<Rightarrow> real \<Rightarrow> 'a Track" where
  "NewWaveTrack i r =
     \<lparr>ident = i, IsWaveTrack = True, GetSelected = False, IsSyncLockSelected = False,
      GetChannel = MonoChannel, GetLinked = False, GetRate = r, GetMaxBlockSize = 0,
      samples = []\<rparr>"

text \<open>Dereferencing a track pointer into a list, and storing through it.\<close>

definition lookup_track :: "nat \<Rightarrow> 'a Track list \<Rightarrow> 'a Track option" where
  "lookup_track p ts = find (\<lambda>t. ident t = p) ts"

definition update_track :: "nat \<Rightarrow> ('a Track \<Rightarrow> 'a Track) \<Rightarrow> 'a Track list \<Rightarrow> 'a Track list" where
  "update_track p f ts = map (\<lambda>t. if ident t = p then f t else t) ts"

section \<open>The Effect Unit and the Effect object\<close>

datatype EffectType =
  EffectTypeNone | EffectTypeHidden | EffectTypeGenerate | EffectTypeProcess
  | EffectTypeAnalyze | EffectTypeTool

datatype ProgressResult = Cancelled | Success | Failed | Stopped

text \<open>What a call can throw: the application-level \<open>AudacityException\<close> family, or
  anything else.\<close>

datatype exn = AudacityException | OtherException

text \<open>
  The virtual interface of an effect, over the state \<open>'e\<close> of the unit behind it.
  \<open>ProcessBlock\<close> receives what the input pointers show for \<open>blockLen\<close> samples and yields
  either an exception or the returned count with the samples it stored through the output
  pointers.  \<open>ProgressUpdate\<close> is the progress dialog; \<open>SyncLockAdjust\<close> is the
  track operation of that name, giving the samples the track has after it.  The next
  six are what \<open>DoEffect\<close> asks: \<open>Init\<close>, whether the effect is interactive and what its
  dialog answers, \<open>CheckWhetherSkipEffect\<close>, \<open>End\<close>, and whether \<open>GetPath()\<close> is the
  Nyquist prompt.  The last four are the machine's double arithmetic where the engine
  uses it: the sum and the difference of two times, the quotient of two sample counts
  that is the progress fraction, and \<open>sampleCount((rate * duration) + 0.5)\<close>, the length
  in samples of a duration.
\<close>

record ('e, 'a) EffectUnit =
  GetType :: EffectType
  GetAudioInCount :: "'e \<Rightarrow> nat"
  GetAudioOutCount :: "'e \<Rightarrow> nat"
  SetSampleRate :: "real \<Rightarrow> 'e \<Rightarrow> 'e"
  SetBlockSize :: "nat \<Rightarrow> 'e \<Rightarrow> nat \<times> 'e"
  GetLatency :: "'e \<Rightarrow> sampleCount \<times> 'e"
  ProcessInitialize :: "sampleCount \<Rightarrow> ChannelName list \<Rightarrow> 'e \<Rightarrow> bool \<times> 'e"
  ProcessBlock :: "'a list list \<Rightarrow> nat \<Rightarrow> 'e \<Rightarrow> (exn + nat \<times> 'a list list) \<times> 'e"
  ProcessFinalize :: "'e \<Rightarrow> bool \<times> 'e"
  InitPass1 :: "'e \<Rightarrow> bool \<times> 'e"
  InitPass2 :: "'e \<Rightarrow> bool \<times> 'e"
  ProgressUpdate :: "real \<Rightarrow> real \<Rightarrow> 'e \<Rightarrow> ProgressResult \<times> 'e"
  SyncLockAdjust :: "real \<Rightarrow> real \<Rightarrow> 'a Track \<Rightarrow> 'a list"
  Init :: "'e \<Rightarrow> bool \<times> 'e"
  IsInteractive :: bool
  ShowInterface :: "'e \<Rightarrow> bool \<times> 'e"
  CheckWhetherSkipEffect :: "'e \<Rightarrow> bool"
  EffectEnd :: "'e \<Rightarrow> 'e"
  IsNyquistPrompt :: bool
  dbl_add :: "real \<Rightarrow> real \<Rightarrow> real"
  dbl_sub :: "real \<Rightarrow> real \<Rightarrow> real"
  dbl_quot :: "sampleCount \<Rightarrow> sampleCount \<Rightarrow> real"
  dbl_samples :: "real \<Rightarrow> real \<Rightarrow> sampleCount"

text \<open>
  The calls the engine makes, in order: an observation of the run, not a member of the
  class.  \<open>EvProcessPass p\<close>: \<open>ProcessPass\<close> entered while \<open>GetPass()\<close> is \<open>p\<close>;
  \<open>EvReinit\<close>: the buffer set (re)allocated, with the rows and columns of the input and
  of the output buffers; \<open>EvProcessTrack\<close>: \<open>ProcessTrack\<close> called with these \<open>left\<close> and
  \<open>right\<close>; \<open>EvProcessBlock\<close>: \<open>ProcessBlock\<close> called with this many input pointers and
  this block length.
\<close>

datatype event =
  EvProcessPass int
  | EvReinit nat nat nat nat
  | EvProcessTrack nat "nat option"
  | EvProcessBlock nat nat

text \<open>The values of \<open>GetPass()\<close> at which \<open>ProcessPass\<close> was entered, the
  (re)allocations, and the calls of \<open>ProcessTrack\<close> of a trace.\<close>

fun passes :: "event list \<Rightarrow> int list" where
  "passes [] = []"
| "passes (EvProcessPass p # evs) = p # passes evs"
| "passes (ev # evs) = passes evs"

fun reinits :: "event list \<Rightarrow> event list" where
  "reinits [] = []"
| "reinits (EvReinit a b c d # evs) = EvReinit a b c d # reinits evs"
| "reinits (ev # evs) = reinits evs"

fun track_calls :: "event list \<Rightarrow> event list" where
  "track_calls [] = []"
| "track_calls (EvProcessTrack l r # evs) = EvProcessTrack l r # track_calls evs"
| "track_calls (ev # evs) = track_calls evs"

record ('e, 'a) Effect =
  client :: 'e
  mTracks :: "'a Track list"
  mOutputTracks :: "'a Track list option"
  mIMap :: "nat option list"
  mOMap :: "nat list"
  mNumAudioIn :: nat
  mNumAudioOut :: nat
  mNumChannels :: nat
  mNumTracks :: nat
  mNumGroups :: nat
  mPass :: int
  mBufferSize :: nat
  mBlockSize :: nat
  mSampleCnt :: sampleCount
  mSampleRate :: real
  mT0 :: real
  mT1 :: real
  mDuration :: real
  mProjectRate :: real
  mIsPreview :: bool
  mProgress :: bool
  region_t0 :: real
  region_t1 :: real
  selectedRegion_t1 :: real
  LastUsedDuration :: real
  previewLen :: real
  nextIdent :: nat
  nEffectsDone :: nat
  trace :: "event list"

definition GetPass :: "('e, 'a) Effect \<Rightarrow> int" where
  "GetPass s = mPass s"

definition TrackProgress ::
  "('e, 'a) EffectUnit \<Rightarrow> nat \<Rightarrow> real \<Rightarrow> ('e, 'a) Effect \<Rightarrow> bool \<times> ('e, 'a) Effect" where
  "TrackProgress U whichTrack fraction s =
     (if mProgress s
      then (case ProgressUpdate U (dbl_add U (real whichTrack) fraction) (real (mNumTracks s))
                   (client s) of
              (updateResult, e) \<Rightarrow> (updateResult \<noteq> Success, s\<lparr>client := e\<rparr>))
      else (False, s))"

definition TrackGroupProgress ::
  "('e, 'a) EffectUnit \<Rightarrow> nat \<Rightarrow> real \<Rightarrow> ('e, 'a) Effect \<Rightarrow> bool \<times> ('e, 'a) Effect" where
  "TrackGroupProgress U whichGroup fraction s =
     (if mProgress s
      then (case ProgressUpdate U (dbl_add U (real whichGroup) fraction) (real (mNumGroups s))
                   (client s) of
              (updateResult, e) \<Rightarrow> (updateResult \<noteq> Success, s\<lparr>client := e\<rparr>))
      else (False, s))"


section \<open>ProcessTrack: the block loop over one channel-group\<close>

text \<open>The buffer set, owned by \<open>ProcessPass\<close> and passed by reference: the rows of the
  input and output buffers, and for each row the position pointer as an offset.\<close>

record 'a Buffers =
  inBuffer :: "'a list list"
  outBuffer :: "'a list list"
  inBufPos :: "nat list"
  outBufPos :: "nat list"

text \<open>The arguments of \<open>ProcessTrack\<close>; \<open>left\<close> and \<open>right\<close> point into
  \<open>mOutputTracks\<close>.\<close>

record pt_args =
  count :: nat
  chanMap :: "ChannelName list"
  left :: nat
  right :: "nat option"
  leftStart :: sampleCount
  rightStart :: sampleCount
  len :: sampleCount

text \<open>The Run State: the buffer set, the Effect object and the locals of
  \<open>ProcessTrack\<close>.\<close>

record ('e, 'a) pt_state = "'a Buffers" +
  eff :: "('e, 'a) Effect"
  inLeftPos :: sampleCount
  inRightPos :: sampleCount
  outLeftPos :: sampleCount
  outRightPos :: sampleCount
  inputRemaining :: sampleCount
  curDelay :: sampleCount
  delayRemaining :: sampleCount
  curBlockSize :: nat
  inputBufferCnt :: nat
  outputBufferCnt :: nat
  cleared :: bool
  chans :: nat
  genLeft :: "'a Track option"
  genRight :: "'a Track option"
  genLength :: sampleCount
  rc :: bool

definition isGenerator :: "('e, 'a) EffectUnit \<Rightarrow> bool" where
  "isGenerator U = (GetType U = EffectTypeGenerate)"

definition isProcessor :: "('e, 'a) EffectUnit \<Rightarrow> bool" where
  "isProcessor U = (GetType U = EffectTypeProcess)"

text \<open>Reading a row that the buffer set does not have is undefined in the source; it
  shows nothing here.\<close>

definition row :: "nat \<Rightarrow> 'a list list \<Rightarrow> 'a list" where
  "row i rows = (if i < length rows then rows ! i else [])"

definition upd_row :: "nat \<Rightarrow> ('b \<Rightarrow> 'b) \<Rightarrow> 'b list \<Rightarrow> 'b list" where
  "upd_row i f rows = (if i < length rows then rows[i := f (rows ! i)] else rows)"

text \<open>\<open>p->Get(...)\<close> and a store \<open>p->...\<close> for a pointer \<open>p\<close> into \<open>mOutputTracks\<close>.\<close>

definition deref :: "('e, 'a) Effect \<Rightarrow> nat \<Rightarrow> 'a Track option" where
  "deref s p = (case mOutputTracks s of None \<Rightarrow> None | Some ts \<Rightarrow> lookup_track p ts)"

definition track_Get :: "('e, 'a::zero) Effect \<Rightarrow> nat \<Rightarrow> sampleCount \<Rightarrow> nat \<Rightarrow> 'a list" where
  "track_Get s p start n =
     (case deref s p of None \<Rightarrow> replicate n 0 | Some t \<Rightarrow> WaveTrack_Get t start n)"

definition track_upd ::
  "nat \<Rightarrow> ('a Track \<Rightarrow> 'a Track) \<Rightarrow> ('e, 'a) Effect \<Rightarrow> ('e, 'a) Effect" where
  "track_upd p f s = s\<lparr>mOutputTracks := map_option (update_track p f) (mOutputTracks s)\<rparr>"

subsection \<open>Still working on the input samples\<close>

text \<open>Need to refill the input buffers (\<open>inputBufferCnt == 0\<close>).\<close>

definition refill_input :: "pt_args \<Rightarrow> ('e, 'a::zero) pt_state \<Rightarrow> ('e, 'a) pt_state" where
  "refill_input a s =
     (let n = limitSampleBufferSize (mBufferSize (eff s)) (inputRemaining s);
          b0 = upd_row 0 (write_at 0 (track_Get (eff s) (left a) (inLeftPos s) n)) (inBuffer s);
          b1 = (case right a of
                  None \<Rightarrow> b0
                | Some r \<Rightarrow> upd_row 1 (write_at 0 (track_Get (eff s) r (inRightPos s) n)) b0)
      in s\<lparr>inputBufferCnt := n,
            inBuffer := b1,
            inBufPos := upd_rows (mNumChannels (eff s)) (\<lambda>i p. 0) (inBufPos s)\<rparr>)"

text \<open>We've reached the last block: \<open>curBlockSize > inputRemaining\<close>.  The remainder of
  the block is cleared, and delayed samples are used up where there are some.\<close>

definition last_block :: "('e, 'a::zero) pt_state \<Rightarrow> ('e, 'a) pt_state" where
  "last_block s =
     (let cbs = nat (inputRemaining s);
          cnt = mBlockSize (eff s) - cbs;
          s1 = s\<lparr>curBlockSize := cbs,
                 inputRemaining := 0,
                 inBuffer := upd_rows (mNumChannels (eff s))
                               (\<lambda>i r. write_at (inBufPos s ! i + cbs) (replicate cnt 0) r)
                               (inBuffer s)\<rparr>
      in if delayRemaining s1 \<noteq> 0
         then (let cnt' = limitSampleBufferSize cnt (delayRemaining s1)
               in s1\<lparr>delayRemaining := delayRemaining s1 - int cnt',
                     curBlockSize := curBlockSize s1 + cnt'\<rparr>)
         else s1)"

definition input_phase :: "pt_args \<Rightarrow> ('e, 'a::zero) pt_state \<Rightarrow> ('e, 'a) pt_state" where
  "input_phase a s =
     (let s1 = (if inputBufferCnt s = 0 then refill_input a s else s);
          s2 = s1\<lparr>curBlockSize := mBlockSize (eff s1)\<rparr>
      in if int (curBlockSize s2) > inputRemaining s2 then last_block s2 else s2)"

subsection \<open>We've exhausted the input samples and are now working on the delay\<close>

definition delay_phase :: "('e, 'a::zero) pt_state \<Rightarrow> ('e, 'a) pt_state" where
  "delay_phase s =
     (let cbs = limitSampleBufferSize (mBlockSize (eff s)) (delayRemaining s);
          s1 = s\<lparr>curBlockSize := cbs, delayRemaining := delayRemaining s - int cbs\<rparr>
      in if \<not> cleared s1
         then s1\<lparr>inBufPos := upd_rows (mNumChannels (eff s1)) (\<lambda>i p. 0) (inBufPos s1),
                 inBuffer := upd_rows (mNumChannels (eff s1))
                               (\<lambda>i r. write_at 0 (replicate (mBlockSize (eff s1)) 0) r)
                               (inBuffer s1),
                 cleared := True\<rparr>
         else s1)"

subsection \<open>Finally call the plugin to process the block\<close>

text \<open>What \<open>ProcessBlock\<close> is shown through the input pointers, and what it stored
  through the output pointers: \<open>n\<close> samples a row.\<close>

fun store_block :: "nat \<Rightarrow> nat list \<Rightarrow> 'a list list \<Rightarrow> 'a list list \<Rightarrow> 'a list list" where
  "store_block n (p # ps) (out # outs) (r # rows) =
     write_at p (take n out) r # store_block n ps outs rows"
| "store_block n ps outs rows = rows"

text \<open>
  The \<open>try\<close> block.  The result is the exception that left it, if any.  The returned
  count \<open>processed\<close> is compared with \<open>curBlockSize\<close> by an assertion of debug builds only
  and is otherwise unused.
\<close>

definition plugin_inputs :: "('e, 'a) pt_state \<Rightarrow> 'a list list" where
  "plugin_inputs s = map (\<lambda>(p, r). window p (curBlockSize s) r) (zip (inBufPos s) (inBuffer s))"

definition call_plugin ::
  "('e, 'a) EffectUnit \<Rightarrow> ('e, 'a) pt_state \<Rightarrow> exn option \<times> ('e, 'a) pt_state" where
  "call_plugin U s =
     (let ins = plugin_inputs s;
          e0 = (eff s)\<lparr>trace := trace (eff s) @ [EvProcessBlock (length ins) (curBlockSize s)]\<rparr>
      in case ProcessBlock U ins (curBlockSize s) (client e0) of
           (Inl x, e) \<Rightarrow> (Some x, s\<lparr>eff := e0\<lparr>client := e\<rparr>\<rparr>)
         | (Inr (processed, outs), e) \<Rightarrow>
             (None, s\<lparr>eff := e0\<lparr>client := e\<rparr>,
                      outBuffer := store_block (curBlockSize s) (outBufPos s) outs (outBuffer s)\<rparr>))"

subsection \<open>Bump to next input buffer position\<close>

definition bump_input :: "('e, 'a) pt_state \<Rightarrow> ('e, 'a) pt_state" where
  "bump_input s =
     (let s1 = (if inputRemaining s \<noteq> 0
                then s\<lparr>inBufPos := upd_rows (mNumChannels (eff s)) (\<lambda>i p. p + curBlockSize s)
                                     (inBufPos s),
                       inputRemaining := inputRemaining s - int (curBlockSize s),
                       inputBufferCnt := inputBufferCnt s - curBlockSize s\<rparr>
                else s)
      in s1\<lparr>inLeftPos := inLeftPos s1 + int (curBlockSize s1),
            inRightPos := inRightPos s1 + int (curBlockSize s1)\<rparr>)"

subsection \<open>Get the current number of delayed samples and accumulate\<close>

definition delay_compensation ::
  "('e, 'a) EffectUnit \<Rightarrow> ('e, 'a) pt_state \<Rightarrow> ('e, 'a) pt_state" where
  "delay_compensation U s =
     (if isProcessor U
      then (case GetLatency U (client (eff s)) of
              (delay, e) \<Rightarrow>
                (let s1 = s\<lparr>eff := (eff s)\<lparr>client := e\<rparr>,
                            curDelay := curDelay s + delay,
                            delayRemaining := delayRemaining s + delay\<rparr>
                 in if curDelay s1 \<ge> int (curBlockSize s1)
                    then s1\<lparr>curDelay := curDelay s1 - int (curBlockSize s1),
                            curBlockSize := 0\<rparr>
                    else if curDelay s1 > 0
                    then (let d = nat (curDelay s1);
                              cbs = curBlockSize s1 - d
                          in s1\<lparr>curBlockSize := cbs,
                                outBuffer := upd_rows (chans s1)
                                   (\<lambda>i r. write_at (outBufPos s1 ! i)
                                             (window (outBufPos s1 ! i + d) cbs r) r)
                                   (outBuffer s1),
                                curDelay := 0\<rparr>)
                    else s1))
      else s)"

subsection \<open>Adjust the number of samples in the output buffers\<close>

text \<open>Write them out: \<open>Set\<close> for a processor, \<open>Append\<close> to the temporary tracks for a
  generator.\<close>

definition write_output ::
  "('e, 'a) EffectUnit \<Rightarrow> pt_args \<Rightarrow> ('e, 'a) pt_state \<Rightarrow> ('e, 'a) pt_state" where
  "write_output U a s =
     (if isProcessor U
      then (let e1 = track_upd (left a)
                       (WaveTrack_Set (row 0 (outBuffer s)) (outLeftPos s) (outputBufferCnt s))
                       (eff s);
                e2 = (case right a of
                        None \<Rightarrow> e1
                      | Some r \<Rightarrow>
                          if chans s \<ge> 2
                          then track_upd r
                                 (WaveTrack_Set (row 1 (outBuffer s)) (outRightPos s)
                                    (outputBufferCnt s)) e1
                          else track_upd r
                                 (WaveTrack_Set (row 0 (outBuffer s)) (outRightPos s)
                                    (outputBufferCnt s)) e1)
            in s\<lparr>eff := e2\<rparr>)
      else if isGenerator U
      then s\<lparr>genLeft := map_option (WaveTrack_Append (row 0 (outBuffer s)) (outputBufferCnt s))
                          (genLeft s),
             genRight := map_option (WaveTrack_Append (row 1 (outBuffer s)) (outputBufferCnt s))
                           (genRight s)\<rparr>
      else s)"

definition output_phase ::
  "('e, 'a) EffectUnit \<Rightarrow> pt_args \<Rightarrow> ('e, 'a) pt_state \<Rightarrow> ('e, 'a) pt_state" where
  "output_phase U a s =
     (let s1 = s\<lparr>outputBufferCnt := outputBufferCnt s + curBlockSize s\<rparr>
      in if outputBufferCnt s1 < mBufferSize (eff s1)
         then s1\<lparr>outBufPos := upd_rows (chans s1) (\<lambda>i p. p + curBlockSize s1) (outBufPos s1)\<rparr>
         else (let s2 = write_output U a s1
               in s2\<lparr>outBufPos := upd_rows (chans s2) (\<lambda>i p. 0) (outBufPos s2),
                     outLeftPos := outLeftPos s2 + int (outputBufferCnt s2),
                     outRightPos := outRightPos s2 + int (outputBufferCnt s2),
                     outputBufferCnt := 0\<rparr>))"

subsection \<open>Progress and cancellation\<close>

definition report_progress ::
  "('e, 'a) EffectUnit \<Rightarrow> pt_args \<Rightarrow> ('e, 'a) pt_state \<Rightarrow> bool \<times> ('e, 'a) pt_state" where
  "report_progress U a s =
     (let fraction = dbl_quot U (inLeftPos s - leftStart a)
                       (if isGenerator U then genLength s else len a)
      in case (if mNumChannels (eff s) > 1
               then TrackGroupProgress U (count a) fraction (eff s)
               else TrackProgress U (count a) fraction (eff s)) of
           (stop, e) \<Rightarrow> (stop, s\<lparr>eff := e\<rparr>))"

subsection \<open>The loop\<close>

text \<open>How an iteration ends: the loop goes on, \<open>break\<close> after a stop request,
  \<open>return false\<close> from the handler of unknown exceptions, or the rethrown
  \<open>AudacityException\<close>.\<close>

datatype flow = Continue | Break | ReturnFalse | Rethrow

text \<open>The block of this iteration: of input while there is some, of delay after.\<close>

definition next_block :: "pt_args \<Rightarrow> ('e, 'a::zero) pt_state \<Rightarrow> ('e, 'a) pt_state" where
  "next_block a s =
     (if inputRemaining s \<noteq> 0 then input_phase a s
      else if delayRemaining s \<noteq> 0 then delay_phase s
      else s)"

text \<open>The rest of the iteration, from the handlers of the \<open>try\<close> block on: given the
  exception that left the call, if any, and the Run State after it.\<close>

definition after_call ::
  "('e, 'a::zero) EffectUnit \<Rightarrow> pt_args \<Rightarrow> exn option \<times> ('e, 'a) pt_state
     \<Rightarrow> flow \<times> ('e, 'a) pt_state" where
  "after_call U a c =
     (case c of
        (Some AudacityException, s2) \<Rightarrow> (Rethrow, s2)
      | (Some OtherException, s2) \<Rightarrow> (ReturnFalse, s2)
      | (None, s2) \<Rightarrow>
          (case report_progress U a
                  (output_phase U a (delay_compensation U (bump_input s2))) of
             (True, s3) \<Rightarrow> (Break, s3\<lparr>rc := False\<rparr>)
           | (False, s3) \<Rightarrow> (Continue, s3)))"

text \<open>One iteration of the loop.\<close>

definition loop_body ::
  "('e, 'a::zero) EffectUnit \<Rightarrow> pt_args \<Rightarrow> ('e, 'a) pt_state \<Rightarrow> flow \<times> ('e, 'a) pt_state" where
  "loop_body U a s = after_call U a (call_plugin U (next_block a s))"

text \<open>\<open>while (inputRemaining != 0 || delayRemaining != 0)\<close>; a run that never leaves
  the loop has no result (\<open>None\<close>).\<close>

partial_function (option) block_loop ::
  "('e, 'a::zero) EffectUnit \<Rightarrow> pt_args \<Rightarrow> ('e, 'a) pt_state
     \<Rightarrow> (flow \<times> ('e, 'a) pt_state) option" where
  "block_loop U a s =
     (if inputRemaining s \<noteq> 0 \<or> delayRemaining s \<noteq> 0
      then (let r = loop_body U a s
            in if fst r = Continue then block_loop U a (snd r) else Some r)
      else Some (Continue, s))"

declare block_loop.simps [code]


subsection \<open>ProcessTrack\<close>

text \<open>The locals as the loop is entered.  For a generator the delay to drain is the
  length to generate, and the temporary tracks are created.  \<open>previewLen\<close> is what
  \<open>CalcPreviewInputLength\<close> makes of the preview length of the preferences.\<close>

definition pt_initial ::
  "('e, 'a) EffectUnit \<Rightarrow> pt_args \<Rightarrow> 'a Buffers \<Rightarrow> ('e, 'a) Effect \<Rightarrow> ('e, 'a) pt_state" where
  "pt_initial U a b s =
     (let gen = isGenerator U;
          genDur = (if mIsPreview s then min (mDuration s) (previewLen s) else mDuration s);
          lrate = (case deref s (left a) of None \<Rightarrow> 0 | Some t \<Rightarrow> GetRate t);
          gl = (if gen then dbl_samples U lrate genDur else 0)
      in \<lparr>inBuffer = inBuffer b, outBuffer = outBuffer b,
          inBufPos = inBufPos b, outBufPos = outBufPos b,
          eff = (if gen then s\<lparr>nextIdent := nextIdent s + 2\<rparr> else s),
          inLeftPos = leftStart a, inRightPos = rightStart a,
          outLeftPos = leftStart a, outRightPos = rightStart a,
          inputRemaining = len a,
          curDelay = 0,
          delayRemaining = (if gen then gl else 0),
          curBlockSize = 0,
          inputBufferCnt = 0,
          outputBufferCnt = 0,
          cleared = gen,
          chans = min (mNumAudioOut s) (mNumChannels s),
          genLeft = (if gen then Some (NewWaveTrack (nextIdent s) lrate) else None),
          genRight = (if gen
                      then (case right a of
                              None \<Rightarrow> None
                            | Some r \<Rightarrow>
                                Some (NewWaveTrack (nextIdent s + 1)
                                        (case deref s r of None \<Rightarrow> 0 | Some t \<Rightarrow> GetRate t)))
                      else None),
          genLength = gl,
          rc = True\<rparr>)"

text \<open>Transfer the data from the temporary tracks to the actual ones: the left channel is
  replaced up to the end of the project's selection, the right one up to \<open>mT1\<close>.\<close>

definition generator_splice :: "pt_args \<Rightarrow> ('e, 'a) pt_state \<Rightarrow> ('e, 'a) pt_state" where
  "generator_splice a s =
     (case genLeft s of
        None \<Rightarrow> s
      | Some gl \<Rightarrow>
          (let e1 = track_upd (left a)
                      (WaveTrack_ClearAndPaste (mT0 (eff s)) (selectedRegion_t1 (eff s)) gl)
                      (eff s);
               e2 = (case genRight s of
                       None \<Rightarrow> e1
                     | Some gr \<Rightarrow>
                         (case right a of
                            None \<Rightarrow> e1
                          | Some r \<Rightarrow>
                              track_upd r
                                (WaveTrack_ClearAndPaste (mT0 (eff s)) (mT1 (eff s)) gr) e1))
           in s\<lparr>eff := e2\<rparr>))"

text \<open>After the loop: put any remaining output, and splice what a generator made.\<close>

definition finish_track ::
  "('e, 'a) EffectUnit \<Rightarrow> pt_args \<Rightarrow> ('e, 'a) pt_state \<Rightarrow> ('e, 'a) pt_state" where
  "finish_track U a s =
     (let s1 = (if rc s \<and> outputBufferCnt s \<noteq> 0 then write_output U a s else s)
      in if rc s1 \<and> isGenerator U then generator_splice a s1 else s1)"

text \<open>The scope-exit cleanup of \<open>ProcessTrack\<close>: allow the plugin to clean up.\<close>

definition run_finalize ::
  "('e, 'a) EffectUnit \<Rightarrow> ('e, 'a) pt_state \<Rightarrow> bool \<times> ('e, 'a) pt_state" where
  "run_finalize U s =
     (case ProcessFinalize U (client (eff s)) of
        (ok, e) \<Rightarrow> (ok, s\<lparr>eff := (eff s)\<lparr>client := e\<rparr>\<rparr>))"

definition buffers_of :: "('e, 'a) pt_state \<Rightarrow> 'a Buffers" where
  "buffers_of s =
     \<lparr>inBuffer = inBuffer s, outBuffer = outBuffer s,
      inBufPos = inBufPos s, outBufPos = outBufPos s\<rparr>"

text \<open>The result of \<open>ProcessTrack\<close> is the exception that leaves it (\<open>Inl\<close>) or the
  returned flag (\<open>Inr\<close>), with the buffer set and the Effect object as it leaves them;
  \<open>None\<close> when the loop never ends.  In the functions above \<open>ProcessTrack\<close>, \<open>None\<close>
  is a call that does not come back: a loop that never ends, or the process killed.\<close>

definition ProcessTrack ::
  "('e, 'a::zero) EffectUnit \<Rightarrow> pt_args \<Rightarrow> 'a Buffers \<Rightarrow> ('e, 'a) Effect
     \<Rightarrow> ((exn + bool) \<times> 'a Buffers \<times> ('e, 'a) Effect) option" where
  "ProcessTrack U a b s0 =
     (let s = s0\<lparr>trace := trace s0 @ [EvProcessTrack (left a) (right a)]\<rparr>
      in case ProcessInitialize U (len a) (chanMap a) (client s) of
           (False, e) \<Rightarrow> Some (Inr False, b, s\<lparr>client := e\<rparr>)
         | (True, e) \<Rightarrow>
             (case block_loop U a (pt_initial U a b (s\<lparr>client := e\<rparr>)) of
                None \<Rightarrow> None
              | Some (fl, s1) \<Rightarrow>
                  (case fl of
                     Rethrow \<Rightarrow>
                       (case run_finalize U s1 of
                          (ok, s2) \<Rightarrow> Some (Inl AudacityException, buffers_of s2, eff s2))
                   | ReturnFalse \<Rightarrow>
                       (case run_finalize U s1 of
                          (ok, s2) \<Rightarrow> Some (Inr False, buffers_of s2, eff s2))
                   | _ \<Rightarrow>
                       (case run_finalize U (finish_track U a s1) of
                          (ok, s2) \<Rightarrow>
                            Some (Inr (if ok then rc s2 else False), buffers_of s2, eff s2)))))"

section \<open>ProcessPass: one sweep over the channel-groups\<close>

text \<open>
  Modelled from the spec: the track list's iteration is declared outside
  \<open>Effect.cpp\<close>.  A channel-group is one track or a linked track with the one after it.
  \<open>Leaders\<close> are the first tracks of the groups; \<open>Channels_StartingWith p\<close> are the
  channels of the group of \<open>p\<close> from \<open>p\<close> on: both channels for the first of a pair, the
  track alone for the second of a pair and for a track that is in no pair.
\<close>

fun Leaders :: "'a Track list \<Rightarrow> 'a Track list" where
  "Leaders [] = []"
| "Leaders (t # ts) = t # Leaders (if GetLinked t then drop 1 ts else ts)"

fun Channels_StartingWith :: "nat \<Rightarrow> 'a Track list \<Rightarrow> 'a Track list" where
  "Channels_StartingWith p [] = []"
| "Channels_StartingWith p (t # ts) =
     (if ident t = p then t # (if GetLinked t then take 1 ts else [])
      else if GetLinked t
      then (case ts of
              [] \<Rightarrow> []
            | r # rest \<Rightarrow> if ident r = p then [r] else Channels_StartingWith p rest)
      else Channels_StartingWith p ts)"

definition GetSamples :: "('e, 'a) Effect \<Rightarrow> 'a Track \<Rightarrow> sampleCount \<times> sampleCount" where
  "GetSamples s track =
     (let trackStart = GetStartTime track;
          trackEnd = GetEndTime track;
          t0 = (if mT0 s < trackStart then trackStart else mT0 s);
          t1 = (if mT1 s > trackEnd then trackEnd else mT1 s)
      in if t1 > t0
         then (let start = TimeToLongSamples track t0;
                   endSample = TimeToLongSamples track t1
               in (start, endSample - start))
         else (0, 0))"

text \<open>The locals of \<open>ProcessPass\<close>: the buffer set, the flag, the channel map (an array
  of three names), the count of groups done and the \<open>clear\<close> flag.\<close>

record 'a pass_vars = "'a Buffers" +
  bGoodResult :: bool
  cmap :: "ChannelName list"
  gcount :: nat
  clear :: bool

text \<open>The locals of one visit that the loop over the channels sets.\<close>

record group_vars =
  g_map :: "ChannelName list"
  g_numChannels :: nat
  g_right :: "nat option"
  g_clear :: bool
  g_rightStart :: sampleCount
  g_len :: sampleCount

text \<open>Iterate either over one track which could be any channel, or if multichannel,
  then over all channels of left, which is a leader.\<close>

fun channel_loop ::
  "bool \<Rightarrow> bool \<Rightarrow> ('e, 'a) Effect \<Rightarrow> 'a Track list \<Rightarrow> group_vars \<Rightarrow> group_vars" where
  "channel_loop multichannel gen s [] v = v"
| "channel_loop multichannel gen s (channel # rest) v =
     (let n = g_numChannels v;
          nm = (if GetChannel channel = LeftChannel then ChannelNameFrontLeft
                else if GetChannel channel = RightChannel then ChannelNameFrontRight
                else ChannelNameMono);
          v1 = v\<lparr>g_map := (g_map v)[n := nm, Suc n := ChannelNameEOL],
                 g_numChannels := Suc n\<rparr>
      in if \<not> multichannel then v1
         else if Suc n = 2
         then (let v2 = v1\<lparr>g_right := Some (ident channel), g_clear := False\<rparr>
               in if \<not> gen
                  then (case GetSamples s channel of
                          (rs, rl) \<Rightarrow> v2\<lparr>g_rightStart := rs, g_len := rl\<rparr>)
                  else v2)
         else channel_loop multichannel gen s rest v1)"

text \<open>The Buffer Manager: the buffer size is the requested maximum rounded up to the
  client's block size.  With a block size of 0 the source divides by zero and the process
  is killed: there is no buffer size, and nothing after it happens (\<open>None\<close>).\<close>

definition calcBufferSize :: "nat \<Rightarrow> nat \<Rightarrow> nat option" where
  "calcBufferSize maxSize blockSize =
     (if blockSize = 0 then None
      else Some (((maxSize + (blockSize - 1)) div blockSize) * blockSize))"

text \<open>If the buffer size has changed, then (re)allocate the buffers; rows of the input
  buffer after the first two are cleared.\<close>

definition reallocate :: "('e, 'a::zero) Effect \<Rightarrow> 'a pass_vars \<Rightarrow> 'a pass_vars" where
  "reallocate s v =
     v\<lparr>inBufPos := replicate (mNumAudioIn s) 0,
       inBuffer := upd_rows_from 0 (mNumAudioIn s)
                     (\<lambda>i r. if 2 \<le> i then write_at 0 (replicate (mBufferSize s) 0) r else r)
                     (reinit (mNumAudioIn s) (mBufferSize s)),
       outBufPos := replicate (mNumAudioOut s) 0,
       outBuffer := reinit (mNumAudioOut s) (mBufferSize s + mBlockSize s)\<rparr>"

text \<open>The visit of a selected wave track \<open>left\<close>, first part: the selection in
  samples and the channels of the group.  The result is the start of the selection in
  \<open>left\<close>, the locals that the loop over the channels has set, and the Effect object.\<close>

definition group_select ::
  "('e, 'a::zero) EffectUnit \<Rightarrow> 'a Track \<Rightarrow> 'a pass_vars \<Rightarrow> ('e, 'a) Effect
     \<Rightarrow> sampleCount \<times> group_vars \<times> ('e, 'a) Effect" where
  "group_select U l v s =
     (let gen = isGenerator U;
          multichannel = (mNumAudioIn s > 1);
          sl = (if \<not> gen then GetSamples s l else (0, 0));
          s1 = s\<lparr>mSampleCnt := (if \<not> gen then snd sl else TimeToLongSamples l (mDuration s))\<rparr>;
          g = channel_loop multichannel gen s1
                (Channels_StartingWith (ident l)
                   (case mOutputTracks s1 of None \<Rightarrow> [] | Some ts \<Rightarrow> ts))
                \<lparr>g_map = cmap v, g_numChannels = 0, g_right = None, g_clear = clear v,
                 g_rightStart = 0, g_len = snd sl\<rparr>
      in (fst sl, g, s1\<lparr>mNumChannels := g_numChannels g\<rparr>))"

text \<open>Second part, the Buffer Manager: let the client know the sample rate, get the block
  size the client wants to use, calculate the buffer size, (re)allocate the buffers if
  it has changed, (re)set the buffer positions and clear the unused input buffer.  \<open>hasRight\<close>
  says whether the group has a second channel.\<close>

definition buffer_manager ::
  "('e, 'a::zero) EffectUnit \<Rightarrow> 'a Track \<Rightarrow> bool \<Rightarrow> 'a pass_vars \<Rightarrow> ('e, 'a) Effect
     \<Rightarrow> ('a pass_vars \<times> ('e, 'a) Effect) option" where
  "buffer_manager U l hasRight v s =
     (let s2 = s\<lparr>client := SetSampleRate U (GetRate l) (client s), mSampleRate := GetRate l\<rparr>;
          maxSize = GetMaxBlockSize l * 2
      in case SetBlockSize U maxSize (client s2) of
           (bs, e) \<Rightarrow>
             (case calcBufferSize maxSize bs of
                None \<Rightarrow> None
              | Some bufferSize \<Rightarrow>
                  (let prevBufferSize = mBufferSize s2;
                       s3 = s2\<lparr>client := e, mBlockSize := bs, mBufferSize := bufferSize\<rparr>;
                       realloc = (prevBufferSize \<noteq> mBufferSize s3);
                       v2 = (if realloc then reallocate s3 v else v);
                       s4 = (if realloc
                             then s3\<lparr>trace := trace s3 @
                                        [EvReinit (mNumAudioIn s3) (mBufferSize s3)
                                           (mNumAudioOut s3) (mBufferSize s3 + mBlockSize s3)]\<rparr>
                             else s3);
                       v3 = v2\<lparr>inBufPos := upd_rows (mNumAudioIn s4) (\<lambda>i p. 0) (inBufPos v2),
                               outBufPos := upd_rows (mNumAudioOut s4) (\<lambda>i p. 0) (outBufPos v2)\<rparr>;
                       v4 = (if \<not> hasRight \<and> \<not> clear v3 \<and> mNumAudioIn s4 > 1
                             then v3\<lparr>inBuffer := upd_row 1 (write_at 0 (replicate (mBufferSize s4) 0))
                                                    (inBuffer v3),
                                     clear := True\<rparr>
                             else v3)
                   in Some (v4, s4))))"

text \<open>The visit up to the call of \<open>ProcessTrack\<close>: the arguments of the call, the locals
  and the Effect object.\<close>

definition group_setup ::
  "('e, 'a::zero) EffectUnit \<Rightarrow> 'a Track \<Rightarrow> 'a pass_vars \<Rightarrow> ('e, 'a) Effect
     \<Rightarrow> (pt_args \<times> 'a pass_vars \<times> ('e, 'a) Effect) option" where
  "group_setup U l v s =
     (case group_select U l v s of
        (start, g, s1) \<Rightarrow>
          (case buffer_manager U l (g_right g \<noteq> None)
                  (v\<lparr>cmap := g_map g, clear := g_clear g\<rparr>) s1 of
             None \<Rightarrow> None
           | Some (v4, s4) \<Rightarrow>
               Some (\<lparr>count = gcount v4, chanMap = cmap v4, left = ident l, right = g_right g,
                      leftStart = start, rightStart = g_rightStart g, len = g_len g\<rparr>,
                     v4, s4)))"

text \<open>Go process the track(s): the call, and what the visit does with its result.\<close>

definition process_group ::
  "('e, 'a::zero) EffectUnit \<Rightarrow> 'a Track \<Rightarrow> 'a pass_vars \<Rightarrow> ('e, 'a) Effect
     \<Rightarrow> (exn option \<times> 'a pass_vars \<times> ('e, 'a) Effect) option" where
  "process_group U l v s =
     (case group_setup U l v s of
        None \<Rightarrow> None
      | Some (a, v4, s4) \<Rightarrow>
          (case ProcessTrack U a
                  \<lparr>inBuffer = inBuffer v4, outBuffer = outBuffer v4,
                   inBufPos = inBufPos v4, outBufPos = outBufPos v4\<rparr> s4 of
             None \<Rightarrow> None
           | Some (res, b, s5) \<Rightarrow>
               (let v5 = v4\<lparr>inBuffer := inBuffer b, outBuffer := outBuffer b,
                           inBufPos := inBufPos b, outBufPos := outBufPos b\<rparr>
                in case res of
                     Inl x \<Rightarrow> Some (Some x, v5, s5)
                   | Inr ok \<Rightarrow>
                       Some (None,
                             (if ok then v5\<lparr>bGoodResult := True, gcount := Suc (gcount v5)\<rparr>
                              else v5\<lparr>bGoodResult := False\<rparr>),
                             s5))))"

text \<open>One step of \<open>VisitWhile\<close>: a selected wave track is processed; any other track falls
  through to the second function, which adjusts a sync-lock selected track.\<close>

definition visit_track ::
  "('e, 'a::zero) EffectUnit \<Rightarrow> nat \<Rightarrow> 'a pass_vars \<Rightarrow> ('e, 'a) Effect
     \<Rightarrow> (exn option \<times> 'a pass_vars \<times> ('e, 'a) Effect) option" where
  "visit_track U p v s =
     (case deref s p of
        None \<Rightarrow> Some (None, v, s)
      | Some t \<Rightarrow>
          if IsWaveTrack t \<and> GetSelected t then process_group U t v s
          else Some (None, v,
                     if IsSyncLockSelected t
                     then track_upd p
                            (\<lambda>t. t\<lparr>samples := SyncLockAdjust U (mT1 s)
                                                 (dbl_add U (mT0 s) (mDuration s)) t\<rparr>) s
                     else s))"

fun VisitWhile ::
  "('e, 'a::zero) EffectUnit \<Rightarrow> nat list \<Rightarrow> 'a pass_vars \<Rightarrow> ('e, 'a) Effect
     \<Rightarrow> (exn option \<times> 'a pass_vars \<times> ('e, 'a) Effect) option" where
  "VisitWhile U [] v s = Some (None, v, s)"
| "VisitWhile U (p # ps) v s =
     (case visit_track U p v s of
        None \<Rightarrow> None
      | Some (Some x, v1, s1) \<Rightarrow> Some (Some x, v1, s1)
      | Some (None, v1, s1) \<Rightarrow>
          if bGoodResult v1 then VisitWhile U ps v1 s1 else Some (None, v1, s1))"

definition ProcessPass ::
  "('e, 'a::zero) EffectUnit \<Rightarrow> ('e, 'a) Effect \<Rightarrow> ((exn + bool) \<times> ('e, 'a) Effect) option" where
  "ProcessPass U s0 =
     (let s = s0\<lparr>mBufferSize := 0, mBlockSize := 0,
                 trace := trace s0 @ [EvProcessPass (GetPass s0)]\<rparr>;
          v = \<lparr>inBuffer = [], outBuffer = [], inBufPos = [], outBufPos = [],
               bGoodResult = True,
               cmap = replicate 3 ChannelNameEOL, gcount = 0, clear = False\<rparr>;
          multichannel = (mNumAudioIn s > 1);
          ts = (case mOutputTracks s of None \<Rightarrow> [] | Some ts \<Rightarrow> ts);
          range = (if multichannel then Leaders ts else ts)
      in case VisitWhile U (map ident range) v s of
           None \<Rightarrow> None
         | Some (Some x, v1, s1) \<Rightarrow> Some (Inl x, s1)
         | Some (None, v1, s1) \<Rightarrow>
             Some (Inr (bGoodResult v1),
                   if bGoodResult v1 \<and> GetType U = EffectTypeGenerate
                   then s1\<lparr>mT1 := dbl_add U (mT0 s1) (mDuration s1)\<rparr> else s1))"

section \<open>Working copies: CopyInputTracks and ReplaceProcessedTracks\<close>







text \<open>The working copies: the tracks of \<open>mOutputTracks\<close>, none when the pointer is
  null.\<close>

definition working_list :: "('e, 'a) Effect \<Rightarrow> 'a Track list" where
  "working_list s = (case mOutputTracks s of None \<Rightarrow> [] | Some ts \<Rightarrow> ts)"








section \<open>Process: the two passes\<close>

text \<open>The result is the exception that leaves \<open>Process\<close> or the returned flag; an
  exception skips the rest of the function, \<open>ReplaceProcessedTracks\<close> included.\<close>



text \<open>The default implementations of the two-pass hooks.\<close>

definition Effect_InitPass1 :: "'e \<Rightarrow> bool \<times> 'e" where
  "Effect_InitPass1 e = (True, e)"

definition Effect_InitPass2 :: "'e \<Rightarrow> bool \<times> 'e" where
  "Effect_InitPass2 e = (False, e)"

section \<open>DoEffect: the caller of Process and its scope-exit cleanup\<close>







section \<open>A synthetic Effect Unit with latency\<close>

text \<open>
  The unit of the latency property: a processor that delays every channel by exactly \<open>L\<close>
  samples and applies \<open>g\<close> to each sample.  \<open>pending\<close> holds, for each channel, the \<open>L\<close>
  samples taken in and not yet given out.  With \<open>once\<close> the latency is reported by the
  first \<open>GetLatency()\<close> after \<open>ProcessInitialize\<close> and later calls report 0; without it
  every call reports \<open>L\<close>.  The examples below use whole numbers of seconds and a rate of
  1, on which the machine's double arithmetic is the exact one; the unit carries that.
\<close>

record 'a DelayState =
  pending :: "'a list list"
  reported :: bool

definition DelayUnit ::
  "nat \<Rightarrow> ('a \<Rightarrow> 'a) \<Rightarrow> nat \<Rightarrow> nat \<Rightarrow> bool \<Rightarrow> (('a::zero) DelayState, 'a) EffectUnit" where
  "DelayUnit L g channels blockSize once =
     \<lparr>GetType = EffectTypeProcess,
      GetAudioInCount = (\<lambda>e. channels),
      GetAudioOutCount = (\<lambda>e. channels),
      SetSampleRate = (\<lambda>r e. e),
      SetBlockSize = (\<lambda>n e. (min n blockSize, e)),
      GetLatency = (\<lambda>e. if once \<and> reported e then (0, e) else (int L, e\<lparr>reported := True\<rparr>)),
      ProcessInitialize =
        (\<lambda>n m e. (True, \<lparr>pending = replicate channels (replicate L 0), reported = False\<rparr>)),
      ProcessBlock =
        (\<lambda>ins n e. let streams = map (\<lambda>(l, i). l @ map g (take n i)) (zip (pending e) ins)
                    in (Inr (n, map (take n) streams), e\<lparr>pending := map (drop n) streams\<rparr>)),
      ProcessFinalize = (\<lambda>e. (True, e)),
      InitPass1 = Effect_InitPass1,
      InitPass2 = Effect_InitPass2,
      ProgressUpdate = (\<lambda>x y e. (Success, e)),
      SyncLockAdjust = (\<lambda>t0 t1 t. samples t),
      Init = (\<lambda>e. (True, e)),
      IsInteractive = False,
      ShowInterface = (\<lambda>e. (True, e)),
      CheckWhetherSkipEffect = (\<lambda>e. False),
      EffectEnd = (\<lambda>e. e),
      IsNyquistPrompt = False,
      dbl_add = (\<lambda>x y. x + y),
      dbl_sub = (\<lambda>x y. x - y),
      dbl_quot = (\<lambda>m n. real_of_int m / real_of_int n),
      dbl_samples = (\<lambda>r d. \<lfloor>r * d + 1 / 2\<rfloor>)\<rparr>"

text \<open>An Effect object before \<open>DoEffect\<close>, holding the given tracks, and a mono wave
  track of the given samples.\<close>

definition newEffect :: "'e \<Rightarrow> 'a Track list \<Rightarrow> real \<Rightarrow> real \<Rightarrow> ('e, 'a) Effect" where
  "newEffect e ts t0 t1 =
     \<lparr>client = e, mTracks = ts, mOutputTracks = None, mIMap = [], mOMap = [],
      mNumAudioIn = 0, mNumAudioOut = 0, mNumChannels = 0, mNumTracks = 0, mNumGroups = 0,
      mPass = 0, mBufferSize = 0, mBlockSize = 0, mSampleCnt = 0, mSampleRate = 0,
      mT0 = t0, mT1 = t1, mDuration = 0, mProjectRate = 1, mIsPreview = False,
      mProgress = False, region_t0 = t0, region_t1 = t1, selectedRegion_t1 = t1,
      LastUsedDuration = 0, previewLen = 0,
      nextIdent = Suc (foldr max (map ident ts) 0), nEffectsDone = 0, trace = []\<rparr>"

definition monoTrack :: "nat \<Rightarrow> nat \<Rightarrow> 'a list \<Rightarrow> 'a Track" where
  "monoTrack i maxBlock xs =
     \<lparr>ident = i, IsWaveTrack = True, GetSelected = True, IsSyncLockSelected = False,
      GetChannel = MonoChannel, GetLinked = False, GetRate = 1, GetMaxBlockSize = maxBlock,
      samples = xs\<rparr>"

text \<open>Arguments of \<open>ProcessTrack\<close> for a mono track with identity \<open>p\<close> and a selection
  of \<open>n\<close> samples from \<open>start\<close>.\<close>

definition monoArgs :: "nat \<Rightarrow> sampleCount \<Rightarrow> sampleCount \<Rightarrow> pt_args" where
  "monoArgs p start n =
     \<lparr>count = 0, chanMap = [ChannelNameMono, ChannelNameEOL, ChannelNameEOL],
      left = p, right = None, leftStart = start, rightStart = 0, len = n\<rparr>"

text \<open>The unit \<open>U\<close> with the count that \<open>ProcessBlock\<close> returns replaced by \<open>f\<close> of the
  call; the samples it stores, its state and its exceptions are those of \<open>U\<close>.\<close>

definition with_count ::
  "('a list list \<Rightarrow> nat \<Rightarrow> 'e \<Rightarrow> nat) \<Rightarrow> ('e, 'a) EffectUnit \<Rightarrow> ('e, 'a) EffectUnit" where
  "with_count f U =
     U\<lparr>ProcessBlock :=
         (\<lambda>ins n e. case ProcessBlock U ins n e of
                       (Inl x, e1) \<Rightarrow> (Inl x, e1)
                     | (Inr (processed, outs), e1) \<Rightarrow> (Inr (f ins n e, outs), e1))\<rparr>"


text \<open>The Effect object and the buffer set as \<open>ProcessPass\<close> hands them to
  \<open>ProcessTrack\<close> for one mono working copy, of identity 2 and samples \<open>xs\<close>, with block
  size \<open>B\<close> and buffer size \<open>N\<close>.\<close>

definition monoRun :: "'e \<Rightarrow> 'a list \<Rightarrow> nat \<Rightarrow> nat \<Rightarrow> ('e, 'a) Effect" where
  "monoRun e xs B N =
     (newEffect e [] 0 0)
       \<lparr>mOutputTracks := Some [monoTrack 2 0 xs],
        mNumAudioIn := 1, mNumAudioOut := 1, mNumChannels := 1,
        mBlockSize := B, mBufferSize := N\<rparr>"

definition monoBuffers :: "nat \<Rightarrow> nat \<Rightarrow> ('a::zero) Buffers" where
  "monoBuffers B N =
     \<lparr>inBuffer = reinit 1 N, outBuffer = reinit 1 (N + B), inBufPos = [0], outBufPos = [0]\<rparr>"

text \<open>The Run State with which \<open>ProcessTrack\<close> enters the block loop for that working
  copy, in a run of the unit \<open>U\<close> with \<open>mDuration = d\<close>, block size \<open>B\<close> and buffer size
  \<open>N\<close>, all of the track selected: the state after \<open>ProcessInitialize\<close> and the
  initialisation of the variables.\<close>

definition monoStart ::
  "(int DelayState, int) EffectUnit \<Rightarrow> nat \<Rightarrow> nat \<Rightarrow> real \<Rightarrow> int list
     \<Rightarrow> (int DelayState, int) pt_state" where
  "monoStart U B N d xs =
     (let a = monoArgs 2 0 (int (length xs));
          s = (monoRun \<lparr>pending = [], reported = False\<rparr> xs B N)\<lparr>mDuration := d\<rparr>
      in pt_initial U a (monoBuffers B N)
           (s\<lparr>client := snd (ProcessInitialize U (len a) (chanMap a) (client s))\<rparr>))"

text \<open>What the trace holds of the calls of the plugin, and what \<open>ProcessPass\<close> and
  the functions under it leave as it is in the Effect object: the track list, the maps,
  the pass, the channel counts of the effect, and which objects the working list
  holds.\<close>

fun is_block :: "event \<Rightarrow> bool" where
  "is_block (EvProcessBlock n m) = True"
| "is_block ev = False"

definition same_setup :: "('e, 'a) Effect \<Rightarrow> ('e, 'a) Effect \<Rightarrow> bool" where
  "same_setup s s' =
     (mTracks s' = mTracks s \<and> mIMap s' = mIMap s \<and> mOMap s' = mOMap s
      \<and> mPass s' = mPass s
      \<and> mNumAudioIn s' = mNumAudioIn s \<and> mNumAudioOut s' = mNumAudioOut s
      \<and> mT0 s' = mT0 s \<and> mDuration s' = mDuration s
      \<and> map ident (working_list s') = map ident (working_list s)
      \<and> (mOutputTracks s' = None) = (mOutputTracks s = None))"

text \<open>The synthetic unit with the two-pass hooks answering \<open>p1\<close> and \<open>p2\<close>.\<close>

definition TwoPassUnit :: "bool \<Rightarrow> bool \<Rightarrow> (int DelayState, int) EffectUnit" where
  "TwoPassUnit p1 p2 =
     (DelayUnit 0 id 1 1 True)\<lparr>InitPass1 := (\<lambda>e. (p1, e)), InitPass2 := (\<lambda>e. (p2, e))\<rparr>"



section \<open>Facts about buffers\<close>

lemma length_write_at [simp]: "length (write_at p vs buf) = length buf"
  by (simp add: write_at_def)

lemma length_window: "length (window p n buf) = min n (length buf - p)"
  by (simp add: window_def)

lemma window_write_at_same:
  assumes "p + length vs \<le> length buf"
  shows "window p (length vs) (write_at p vs buf) = vs"
  using assms by (simp add: window_def write_at_def)

lemma take_write_at: "take p (write_at p vs buf) = take p buf"
  by (simp add: write_at_def take_take min_def)

lemma length_upd_rows_from [simp]: "length (upd_rows_from i n g rows) = length rows"
  by (induction rows arbitrary: i) simp_all

lemma nth_upd_rows_from:
  "k < length rows \<Longrightarrow>
   upd_rows_from i n g rows ! k = (if i + k < n then g (i + k) (rows ! k) else rows ! k)"
proof (induction rows arbitrary: i k)
  case Nil
  then show ?case by simp
next
  case (Cons r rows)
  then show ?case by (cases k) simp_all
qed

lemma length_upd_rows [simp]: "length (upd_rows n g rows) = length rows"
  by (simp add: upd_rows_def)

lemma nth_upd_rows:
  "k < length rows \<Longrightarrow> upd_rows n g rows ! k = (if k < n then g k (rows ! k) else rows ! k)"
  by (simp add: upd_rows_def nth_upd_rows_from)


section \<open>The loop and its iterations\<close>

lemma block_loop_step:
  assumes "inputRemaining s \<noteq> 0 \<or> delayRemaining s \<noteq> 0"
  shows "block_loop U a s
           = (if fst (loop_body U a s) = Continue then block_loop U a (snd (loop_body U a s))
              else Some (loop_body U a s))"
  using assms by (subst block_loop.simps) (simp add: Let_def)

lemma block_loop_done:
  assumes "inputRemaining s = 0" and "delayRemaining s = 0"
  shows "block_loop U a s = Some (Continue, s)"
  using assms by (subst block_loop.simps) simp



text \<open>The invariant rule of the loop: what holds at the start and is kept by every
  iteration holds at the end, where the loop condition is false or the last iteration left
  the loop.\<close>

lemma block_loop_invariant:
  assumes run: "block_loop U a s = Some (f, s')"
    and init: "I s"
    and step: "\<And>t. I t \<Longrightarrow> inputRemaining t \<noteq> 0 \<or> delayRemaining t \<noteq> 0
                 \<Longrightarrow> I (snd (loop_body U a t))"
  shows "I s'"
    and "f = Continue \<Longrightarrow> inputRemaining s' = 0 \<and> delayRemaining s' = 0"
proof -
  have "U' = U \<and> a' = a \<and> I s0 \<longrightarrow>
          I (snd y) \<and> (fst y = Continue \<longrightarrow> inputRemaining (snd y) = 0 \<and> delayRemaining (snd y) = 0)"
    if "block_loop U' a' s0 = Some y" for U' a' s0 y
  proof (rule block_loop.raw_induct
           [where P = "\<lambda>U' a' s0 y. U' = U \<and> a' = a \<and> I s0 \<longrightarrow>
                         I (snd y) \<and> (fst y = Continue \<longrightarrow>
                                        inputRemaining (snd y) = 0 \<and> delayRemaining (snd y) = 0)"],
         goal_cases)
    case (1 loop' V b t y)
    show ?case
    proof (intro impI, elim conjE)
      assume V: "V = U" and b: "b = a" and It: "I t"
      show "I (snd y) \<and> (fst y = Continue \<longrightarrow> inputRemaining (snd y) = 0 \<and> delayRemaining (snd y) = 0)"
      proof (cases "inputRemaining t \<noteq> 0 \<or> delayRemaining t \<noteq> 0")
        case False
        with 1(2) It show ?thesis by auto
      next
        case True
        from step [OF It True] have I2: "I (snd (loop_body U a t))" .
        show ?thesis
        proof (cases "fst (loop_body U a t) = Continue")
          case c: True
          with True 1(2) V b have "loop' U a (snd (loop_body U a t)) = Some y"
            by (simp add: Let_def)
          from 1(1) [OF this] I2 show ?thesis by simp
        next
          case c: False
          with True 1(2) V b have "y = loop_body U a t"
            by (simp add: Let_def)
          with I2 c show ?thesis by simp
        qed
      qed
    qed
  next
    case 2
    show ?case by (rule that)
  qed
  from this [OF run] init
  show "I s'" and "f = Continue \<Longrightarrow> inputRemaining s' = 0 \<and> delayRemaining s' = 0"
    by simp_all
qed

lemma block_loop_cong_Some:
  assumes run: "block_loop V a s = Some y" and eq: "loop_body V a = loop_body W a"
  shows "block_loop W a s = Some y"
proof -
  have "loop_body V a = loop_body W a \<longrightarrow> block_loop W a s = Some y"
  proof (rule block_loop.raw_induct
           [where P = "\<lambda>V a s y. loop_body V a = loop_body W a \<longrightarrow> block_loop W a s = Some y"],
         goal_cases)
    case (1 loop' V a s y)
    show ?case
    proof
      assume e: "loop_body V a = loop_body W a"
      show "block_loop W a s = Some y"
      proof (cases "inputRemaining s \<noteq> 0 \<or> delayRemaining s \<noteq> 0")
        case False
        with 1(2) show ?thesis
          by (subst block_loop.simps) simp
      next
        case True
        show ?thesis
        proof (cases "fst (loop_body V a s) = Continue")
          case c: True
          with True 1(2) have "loop' V a (snd (loop_body V a s)) = Some y"
            by (simp add: Let_def)
          from 1(1) [OF this] e have "block_loop W a (snd (loop_body V a s)) = Some y"
            by simp
          with True c e show ?thesis
            by (subst block_loop.simps) (simp add: Let_def)
        next
          case c: False
          with True 1(2) have "Some (loop_body V a s) = Some y"
            by (simp add: Let_def)
          with True c e show ?thesis
            by (subst block_loop.simps) (simp add: Let_def)
        qed
      qed
    qed
  next
    case 2
    show ?case by (rule run)
  qed
  with eq show ?thesis by simp
qed

lemma block_loop_cong:
  assumes "loop_body V a = loop_body W a"
  shows "block_loop V a s = block_loop W a s"
proof (cases "block_loop V a s")
  case (Some y)
  then show ?thesis using block_loop_cong_Some [OF Some assms] by simp
next
  case None
  show ?thesis
  proof (cases "block_loop W a s")
    case n: None
    with None show ?thesis by simp
  next
    case (Some y)
    from block_loop_cong_Some [OF Some assms [symmetric]] None show ?thesis by simp
  qed
qed

text \<open>What the phases of an iteration do to the Effect object.\<close>

lemma eff_refill_input [simp]: "eff (refill_input a s) = eff s"
  by (simp add: refill_input_def Let_def)

lemma eff_last_block [simp]: "eff (last_block s) = eff s"
  by (simp add: last_block_def Let_def)

lemma eff_input_phase [simp]: "eff (input_phase a s) = eff s"
  by (simp add: input_phase_def Let_def)

lemma eff_delay_phase [simp]: "eff (delay_phase s) = eff s"
  by (simp add: delay_phase_def Let_def)

lemma eff_next_block [simp]: "eff (next_block a s) = eff s"
  by (simp add: next_block_def)

lemma eff_bump_input [simp]: "eff (bump_input s) = eff s"
  by (simp add: bump_input_def Let_def)


section \<open>What the phases of an iteration leave as it is\<close>

lemma refill_input_keeps [simp]:
  "curBlockSize (refill_input a s) = curBlockSize s"
  "curDelay (refill_input a s) = curDelay s"
  "chans (refill_input a s) = chans s"
  "outBuffer (refill_input a s) = outBuffer s"
  "outBufPos (refill_input a s) = outBufPos s"
  "outputBufferCnt (refill_input a s) = outputBufferCnt s"
  "outLeftPos (refill_input a s) = outLeftPos s"
  "inLeftPos (refill_input a s) = inLeftPos s"
  "cleared (refill_input a s) = cleared s"
  "rc (refill_input a s) = rc s"
  by (simp_all add: refill_input_def Let_def)

lemma last_block_keeps [simp]:
  "curDelay (last_block s) = curDelay s"
  "chans (last_block s) = chans s"
  "outBuffer (last_block s) = outBuffer s"
  "outBufPos (last_block s) = outBufPos s"
  "outputBufferCnt (last_block s) = outputBufferCnt s"
  "outLeftPos (last_block s) = outLeftPos s"
  "inLeftPos (last_block s) = inLeftPos s"
  "inputBufferCnt (last_block s) = inputBufferCnt s"
  "cleared (last_block s) = cleared s"
  "rc (last_block s) = rc s"
  by (simp_all add: last_block_def Let_def)

lemma input_phase_keeps [simp]:
  "curDelay (input_phase a s) = curDelay s"
  "chans (input_phase a s) = chans s"
  "outBuffer (input_phase a s) = outBuffer s"
  "outBufPos (input_phase a s) = outBufPos s"
  "outputBufferCnt (input_phase a s) = outputBufferCnt s"
  "outLeftPos (input_phase a s) = outLeftPos s"
  "inLeftPos (input_phase a s) = inLeftPos s"
  "cleared (input_phase a s) = cleared s"
  "rc (input_phase a s) = rc s"
  by (simp_all add: input_phase_def Let_def)

lemma delay_phase_keeps [simp]:
  "curDelay (delay_phase s) = curDelay s"
  "chans (delay_phase s) = chans s"
  "outBuffer (delay_phase s) = outBuffer s"
  "outBufPos (delay_phase s) = outBufPos s"
  "outputBufferCnt (delay_phase s) = outputBufferCnt s"
  "outLeftPos (delay_phase s) = outLeftPos s"
  "inLeftPos (delay_phase s) = inLeftPos s"
  "inputRemaining (delay_phase s) = inputRemaining s"
  "inputBufferCnt (delay_phase s) = inputBufferCnt s"
  "rc (delay_phase s) = rc s"
  by (simp_all add: delay_phase_def Let_def)

lemma next_block_keeps [simp]:
  "curDelay (next_block a s) = curDelay s"
  "chans (next_block a s) = chans s"
  "outBuffer (next_block a s) = outBuffer s"
  "outBufPos (next_block a s) = outBufPos s"
  "outputBufferCnt (next_block a s) = outputBufferCnt s"
  "outLeftPos (next_block a s) = outLeftPos s"
  "inLeftPos (next_block a s) = inLeftPos s"
  "rc (next_block a s) = rc s"
  by (simp_all add: next_block_def)

lemma eff_call_plugin:
  "\<exists>e. eff (snd (call_plugin U s))
         = (eff s)\<lparr>trace := trace (eff s) @ [EvProcessBlock (length (plugin_inputs s)) (curBlockSize s)],
                   client := e\<rparr>"
  by (cases "ProcessBlock U (plugin_inputs s) (curBlockSize s) (client (eff s))")
     (auto simp add: call_plugin_def Let_def split: sum.splits)

lemma call_plugin_keeps:
  "snd (call_plugin U s) = s\<lparr>eff := eff (snd (call_plugin U s)),
                                outBuffer := outBuffer (snd (call_plugin U s))\<rparr>"
proof (cases "ProcessBlock U (plugin_inputs s) (curBlockSize s) (client (eff s))")
  case (Pair r e)
  show ?thesis
  proof (cases r)
    case (Inl x)
    with Pair show ?thesis
      by (simp add: call_plugin_def Let_def)
  next
    case (Inr q)
    with Pair show ?thesis
      by (cases q) (simp add: call_plugin_def Let_def)
  qed
qed

lemma call_plugin_fields [simp]:
  "curDelay (snd (call_plugin U s)) = curDelay s"
  "delayRemaining (snd (call_plugin U s)) = delayRemaining s"
  "inputRemaining (snd (call_plugin U s)) = inputRemaining s"
  "curBlockSize (snd (call_plugin U s)) = curBlockSize s"
  "inputBufferCnt (snd (call_plugin U s)) = inputBufferCnt s"
  "outputBufferCnt (snd (call_plugin U s)) = outputBufferCnt s"
  "chans (snd (call_plugin U s)) = chans s"
  "outBufPos (snd (call_plugin U s)) = outBufPos s"
  "inBufPos (snd (call_plugin U s)) = inBufPos s"
  "inBuffer (snd (call_plugin U s)) = inBuffer s"
  "inLeftPos (snd (call_plugin U s)) = inLeftPos s"
  "outLeftPos (snd (call_plugin U s)) = outLeftPos s"
  "cleared (snd (call_plugin U s)) = cleared s"
  "rc (snd (call_plugin U s)) = rc s"
  by (subst call_plugin_keeps, simp)+

lemma bump_input_keeps [simp]:
  "curDelay (bump_input s) = curDelay s"
  "delayRemaining (bump_input s) = delayRemaining s"
  "curBlockSize (bump_input s) = curBlockSize s"
  "chans (bump_input s) = chans s"
  "outBuffer (bump_input s) = outBuffer s"
  "outBufPos (bump_input s) = outBufPos s"
  "outputBufferCnt (bump_input s) = outputBufferCnt s"
  "outLeftPos (bump_input s) = outLeftPos s"
  "inBuffer (bump_input s) = inBuffer s"
  "cleared (bump_input s) = cleared s"
  "rc (bump_input s) = rc s"
  by (simp_all add: bump_input_def Let_def)

lemma write_output_keeps [simp]:
  "curDelay (write_output U a s) = curDelay s"
  "delayRemaining (write_output U a s) = delayRemaining s"
  "inputRemaining (write_output U a s) = inputRemaining s"
  "curBlockSize (write_output U a s) = curBlockSize s"
  "inputBufferCnt (write_output U a s) = inputBufferCnt s"
  "outputBufferCnt (write_output U a s) = outputBufferCnt s"
  "chans (write_output U a s) = chans s"
  "outBuffer (write_output U a s) = outBuffer s"
  "outBufPos (write_output U a s) = outBufPos s"
  "inBuffer (write_output U a s) = inBuffer s"
  "inBufPos (write_output U a s) = inBufPos s"
  "inLeftPos (write_output U a s) = inLeftPos s"
  "outLeftPos (write_output U a s) = outLeftPos s"
  "cleared (write_output U a s) = cleared s"
  "rc (write_output U a s) = rc s"
  by (simp_all add: write_output_def Let_def)

lemma output_phase_keeps [simp]:
  "curDelay (output_phase U a s) = curDelay s"
  "delayRemaining (output_phase U a s) = delayRemaining s"
  "inputRemaining (output_phase U a s) = inputRemaining s"
  "curBlockSize (output_phase U a s) = curBlockSize s"
  "inputBufferCnt (output_phase U a s) = inputBufferCnt s"
  "chans (output_phase U a s) = chans s"
  "outBuffer (output_phase U a s) = outBuffer s"
  "inBuffer (output_phase U a s) = inBuffer s"
  "inBufPos (output_phase U a s) = inBufPos s"
  "inLeftPos (output_phase U a s) = inLeftPos s"
  "cleared (output_phase U a s) = cleared s"
  "rc (output_phase U a s) = rc s"
  by (simp_all add: output_phase_def Let_def)

lemma delay_compensation_keeps [simp]:
  "inputRemaining (delay_compensation U s) = inputRemaining s"
  "inputBufferCnt (delay_compensation U s) = inputBufferCnt s"
  "outputBufferCnt (delay_compensation U s) = outputBufferCnt s"
  "chans (delay_compensation U s) = chans s"
  "outBufPos (delay_compensation U s) = outBufPos s"
  "inBuffer (delay_compensation U s) = inBuffer s"
  "inBufPos (delay_compensation U s) = inBufPos s"
  "inLeftPos (delay_compensation U s) = inLeftPos s"
  "outLeftPos (delay_compensation U s) = outLeftPos s"
  "cleared (delay_compensation U s) = cleared s"
  "rc (delay_compensation U s) = rc s"
  by (simp_all add: delay_compensation_def Let_def split: prod.splits)

lemma report_progress_keeps:
  "snd (report_progress U a s) = s\<lparr>eff := eff (snd (report_progress U a s))\<rparr>"
proof -
  let ?x = "dbl_quot U (inLeftPos s - leftStart a)
              (if isGenerator U then genLength s else len a)"
  let ?p = "if mNumChannels (eff s) > 1 then TrackGroupProgress U (count a) ?x (eff s)
            else TrackProgress U (count a) ?x (eff s)"
  obtain stop e where p: "?p = (stop, e)" by (cases ?p)
  have "report_progress U a s = (stop, s\<lparr>eff := e\<rparr>)"
    unfolding report_progress_def Let_def p by simp
  then show ?thesis by simp
qed

text \<open>The state after an iteration in which the call returned: what the compensation and
  the output phase made of the state after the call, but for the Effect object, which
  the progress dialog may have changed, and \<open>rc\<close>.\<close>

lemma after_call_returned:
  "\<exists>e r. snd (after_call U a (None, s2))
           = (output_phase U a (delay_compensation U (bump_input s2)))\<lparr>eff := e, rc := r\<rparr>"
proof -
  let ?o = "output_phase U a (delay_compensation U (bump_input s2))"
  obtain stop s3 where rp: "report_progress U a ?o = (stop, s3)"
    by (cases "report_progress U a ?o")
  from report_progress_keeps [of U a ?o] rp have s3: "s3 = ?o\<lparr>eff := eff s3\<rparr>"
    by simp
  have a: "s3\<lparr>rc := False\<rparr> = ?o\<lparr>eff := eff s3, rc := False\<rparr>"
    by (subst s3) simp
  have b: "s3 = ?o\<lparr>eff := eff s3, rc := rc ?o\<rparr>"
    by (subst s3) simp
  show ?thesis
  proof (cases stop)
    case True
    then have "snd (after_call U a (None, s2)) = s3\<lparr>rc := False\<rparr>"
      by (simp add: after_call_def rp)
    with a show ?thesis by metis
  next
    case False
    then have "snd (after_call U a (None, s2)) = s3"
      by (simp add: after_call_def rp)
    with b show ?thesis by metis
  qed
qed

lemma loop_body_returned:
  assumes "fst (call_plugin U (next_block a s)) = None"
  shows "\<exists>e r. snd (loop_body U a s)
           = (output_phase U a (delay_compensation U
                (bump_input (snd (call_plugin U (next_block a s))))))\<lparr>eff := e, rc := r\<rparr>"
proof -
  have "call_plugin U (next_block a s) = (None, snd (call_plugin U (next_block a s)))"
    using assms by (cases "call_plugin U (next_block a s)") simp
  then have "loop_body U a s = after_call U a (None, snd (call_plugin U (next_block a s)))"
    by (simp add: loop_body_def)
  then show ?thesis
    using after_call_returned [of U a "snd (call_plugin U (next_block a s))"] by simp
qed

section \<open>Delay compensation\<close>

text \<open>What the compensation does to a state, case by case.\<close>

lemma delay_compensation_cases:
  fixes U :: "('e, 'a) EffectUnit" and s :: "('e, 'a) pt_state"
  shows
    "(let L = fst (GetLatency U (client (eff s)));
          cd = curDelay s + L;
          s' = delay_compensation U s
      in (isProcessor U \<longrightarrow>
            delayRemaining s' = delayRemaining s + L
          \<and> (int (curBlockSize s) \<le> cd \<longrightarrow>
                curBlockSize s' = 0 \<and> curDelay s' = cd - int (curBlockSize s)
              \<and> outBuffer s' = outBuffer s)
          \<and> (cd < int (curBlockSize s) \<and> 0 < cd \<longrightarrow>
                curBlockSize s' = curBlockSize s - nat cd \<and> curDelay s' = 0
              \<and> (\<forall>i. i < chans s \<and> i < length (outBuffer s)
                      \<and> outBufPos s ! i + curBlockSize s \<le> length (outBuffer s ! i) \<longrightarrow>
                     window (outBufPos s ! i) (curBlockSize s') (outBuffer s' ! i)
                       = window (outBufPos s ! i + nat cd) (curBlockSize s') (outBuffer s ! i)
                   \<and> take (outBufPos s ! i) (outBuffer s' ! i)
                       = take (outBufPos s ! i) (outBuffer s ! i)))
          \<and> (cd < int (curBlockSize s) \<and> cd \<le> 0 \<longrightarrow>
                curBlockSize s' = curBlockSize s \<and> curDelay s' = cd
              \<and> outBuffer s' = outBuffer s))
       \<and> (\<not> isProcessor U \<longrightarrow> s' = s))"
proof -
  obtain L e where g: "GetLatency U (client (eff s)) = (L, e)"
    by (cases "GetLatency U (client (eff s))")
  define cd where "cd = curDelay s + L"
  have shift: "window (outBufPos s ! i) (curBlockSize s - nat cd)
                 (write_at (outBufPos s ! i)
                    (window (outBufPos s ! i + nat cd) (curBlockSize s - nat cd) (outBuffer s ! i))
                    (outBuffer s ! i))
               = window (outBufPos s ! i + nat cd) (curBlockSize s - nat cd) (outBuffer s ! i)"
    if "cd < int (curBlockSize s)" "0 < cd"
       "outBufPos s ! i + curBlockSize s \<le> length (outBuffer s ! i)" for i
  proof -
    let ?vs = "window (outBufPos s ! i + nat cd) (curBlockSize s - nat cd) (outBuffer s ! i)"
    have len: "length ?vs = curBlockSize s - nat cd"
      using that by (simp add: length_window)
    have "window (outBufPos s ! i) (length ?vs) (write_at (outBufPos s ! i) ?vs (outBuffer s ! i))
            = ?vs"
      by (rule window_write_at_same) (use that len in simp)
    then show ?thesis by (simp only: len)
  qed
  show ?thesis
    using shift
    by (simp add: delay_compensation_def g Let_def cd_def nth_upd_rows take_write_at)
qed

text \<open>A unit that is not a processor runs its iterations without \<open>GetLatency\<close>.\<close>

lemma phases_without_latency:
  assumes "\<not> isProcessor U"
  shows "delay_compensation (U\<lparr>GetLatency := g\<rparr>) s = delay_compensation U s"
    and "call_plugin (U\<lparr>GetLatency := g\<rparr>) s = call_plugin U s"
    and "write_output (U\<lparr>GetLatency := g\<rparr>) a s = write_output U a s"
    and "output_phase (U\<lparr>GetLatency := g\<rparr>) a s = output_phase U a s"
    and "report_progress (U\<lparr>GetLatency := g\<rparr>) a s = report_progress U a s"
  using assms
  by (simp_all add: delay_compensation_def call_plugin_def output_phase_def Let_def
        write_output_def report_progress_def isProcessor_def isGenerator_def
        TrackProgress_def TrackGroupProgress_def)

lemma loop_body_without_latency:
  assumes "\<not> isProcessor U"
  shows "loop_body (U\<lparr>GetLatency := g\<rparr>) a s = loop_body U a s"
  unfolding loop_body_def after_call_def phases_without_latency [OF assms] ..

text \<open>
  Claim C3.  Take any iteration of the block loop in which the call of \<open>ProcessBlock\<close>
  returns: \<open>s\<close> is the Run State at the head of the iteration, \<open>s1\<close> the state with the block
  chosen, \<open>s2\<close> the state after the call, \<open>s'\<close> the state at the end of the iteration, from
  which the loop goes on.  For a processor-type effect, \<open>curDelay\<close> and \<open>delayRemaining\<close>
  are increased by what \<open>GetLatency()\<close> returns after the call.  If the accumulated \<open>curDelay\<close> is at
  least \<open>curBlockSize\<close>, the whole block is dropped: \<open>curBlockSize\<close> becomes 0, \<open>curDelay\<close>
  decreases by the old \<open>curBlockSize\<close> and the output rows are those the call left.
  Otherwise, if \<open>curDelay\<close> is positive, \<open>curBlockSize\<close> shrinks by \<open>curDelay\<close>, \<open>curDelay\<close>
  becomes 0, and in each of the \<open>chans\<close> output rows whose block lies within the row the
  samples behind the first \<open>curDelay\<close> ones are moved to the output position, what is
  before the position staying.  Otherwise the block and the rows stay.  For an effect
  that is not of processor type (a generator, an analyzer) the delay, the block size and
  the output rows are those after the call, and \<open>GetLatency\<close> is not called: the
  iteration is the same whatever \<open>GetLatency\<close> would do.  While the loop condition holds,
  the loop runs this iteration and goes on from \<open>s'\<close>, or leaves after a stop request.
\<close>

theorem block_loop_delay_compensation:
  fixes U :: "('e, 'a::zero) EffectUnit" and s :: "('e, 'a) pt_state"
  assumes "fst (call_plugin U (next_block a s)) = None"
  shows
    "(let s1 = next_block a s;
          s2 = snd (call_plugin U s1);
          L = fst (GetLatency U (client (eff s2)));
          cd = curDelay s + L;
          cbs = curBlockSize s1;
          s' = snd (loop_body U a s)
      in (isProcessor U \<longrightarrow>
            delayRemaining s' = delayRemaining s1 + L
          \<and> (int cbs \<le> cd \<longrightarrow>
                curBlockSize s' = 0 \<and> curDelay s' = cd - int cbs
              \<and> outBuffer s' = outBuffer s2)
          \<and> (cd < int cbs \<and> 0 < cd \<longrightarrow>
                curBlockSize s' = cbs - nat cd \<and> curDelay s' = 0
              \<and> (\<forall>i. i < chans s \<and> i < length (outBuffer s2)
                      \<and> outBufPos s ! i + cbs \<le> length (outBuffer s2 ! i) \<longrightarrow>
                     window (outBufPos s ! i) (curBlockSize s') (outBuffer s' ! i)
                       = window (outBufPos s ! i + nat cd) (curBlockSize s') (outBuffer s2 ! i)
                   \<and> take (outBufPos s ! i) (outBuffer s' ! i)
                       = take (outBufPos s ! i) (outBuffer s2 ! i)))
          \<and> (cd < int cbs \<and> cd \<le> 0 \<longrightarrow>
                curBlockSize s' = cbs \<and> curDelay s' = cd
              \<and> outBuffer s' = outBuffer s2))
       \<and> (\<not> isProcessor U \<longrightarrow>
            curDelay s' = curDelay s \<and> delayRemaining s' = delayRemaining s1
          \<and> curBlockSize s' = cbs \<and> outBuffer s' = outBuffer s2
          \<and> (\<forall>g. loop_body (U\<lparr>GetLatency := g\<rparr>) a s = loop_body U a s))
       \<and> (inputRemaining s \<noteq> 0 \<or> delayRemaining s \<noteq> 0 \<longrightarrow>
            block_loop U a s
              = (if fst (loop_body U a s) = Continue then block_loop U a s'
                 else Some (loop_body U a s))))"
proof -
  let ?s1 = "next_block a s"
  let ?s2 = "snd (call_plugin U ?s1)"
  let ?b = "bump_input ?s2"
  let ?d = "delay_compensation U ?b"
  let ?s' = "snd (loop_body U a s)"
  from loop_body_returned [OF assms] obtain e r where
    s': "?s' = (output_phase U a ?d)\<lparr>eff := e, rc := r\<rparr>"
    by blast
  have f: "curDelay ?s' = curDelay ?d" "delayRemaining ?s' = delayRemaining ?d"
          "curBlockSize ?s' = curBlockSize ?d" "outBuffer ?s' = outBuffer ?d"
    by (simp_all add: s')
  have b: "curDelay ?b = curDelay s" "delayRemaining ?b = delayRemaining ?s1"
          "curBlockSize ?b = curBlockSize ?s1" "outBuffer ?b = outBuffer ?s2"
          "chans ?b = chans s" "outBufPos ?b = outBufPos s"
          "client (eff ?b) = client (eff ?s2)"
    by simp_all
  have p: "\<not> isProcessor U \<Longrightarrow> \<forall>g. loop_body (U\<lparr>GetLatency := g\<rparr>) a s = loop_body U a s"
    by (simp add: loop_body_without_latency)
  have l: "inputRemaining s \<noteq> 0 \<or> delayRemaining s \<noteq> 0 \<Longrightarrow>
             block_loop U a s
               = (if fst (loop_body U a s) = Continue then block_loop U a ?s'
                  else Some (loop_body U a s))"
    by (rule block_loop_step)
  obtain L e0 where g: "GetLatency U (client (eff ?s2)) = (L, e0)"
    by (cases "GetLatency U (client (eff ?s2))")
  note dc = delay_compensation_cases [of U ?b, unfolded Let_def b g fst_conv]
  have np: "\<not> isProcessor U \<Longrightarrow>
              curDelay ?d = curDelay s \<and> delayRemaining ?d = delayRemaining ?s1
            \<and> curBlockSize ?d = curBlockSize ?s1 \<and> outBuffer ?d = outBuffer ?s2"
    by (simp add: delay_compensation_def)
  show ?thesis
    unfolding Let_def f g fst_conv
  proof (rule conjI [OF _ conjI [OF impI impI]], goal_cases)
    case 1
    show ?case by (rule dc [THEN conjunct1])
  next
    case 2
    from np [OF 2] p [OF 2] show ?case
      by (elim conjE, intro conjI) assumption+
  next
    case 3
    then show ?case by (rule l)
  qed
qed

text \<open>The first iteration of four mono runs.  A latency of 3 on a block of 2 drops the
  block; a latency of 1 on a block of 3 shifts the row: the plugin stored \<open>[0, 7, 8]\<close>, and
  \<open>[7, 8]\<close> are kept; with no latency the block stays; a generator is left alone, whatever
  its \<open>GetLatency\<close> does.\<close>

lemmas first_iteration =
  monoStart_def monoArgs_def monoRun_def monoBuffers_def newEffect_def monoTrack_def
  pt_initial_def DelayUnit_def isGenerator_def isProcessor_def Let_def
  next_block_def input_phase_def refill_input_def last_block_def delay_phase_def
  limitSampleBufferSize_def reinit_def upd_row_def upd_rows_def write_at_def window_def
  track_Get_def deref_def working_list_def lookup_track_def WaveTrack_Get_def
  call_plugin_def plugin_inputs_def sample_at_def upt_conv_Cons eval_nat_numeral
  NewWaveTrack_def

theorem block_loop_delay_compensation_witness:
  "(let U = DelayUnit 3 id 1 2 False; a = monoArgs 2 0 4; s = monoStart U 2 4 0 [7, 8, 9, 10];
        s' = snd (loop_body U a s)
    in isProcessor U \<and> curBlockSize (next_block a s) = 2
       \<and> curBlockSize s' = 0 \<and> curDelay s' = 1 \<and> delayRemaining s' = 3
       \<and> block_loop U a s = (if fst (loop_body U a s) = Continue then block_loop U a s'
                              else Some (loop_body U a s)))
   \<and> (let U = DelayUnit 1 id 1 3 False; a = monoArgs 2 0 3; s = monoStart U 3 6 0 [7, 8, 9];
          s' = snd (loop_body U a s)
      in curBlockSize (next_block a s) = 3
         \<and> window 0 3 (outBuffer (snd (call_plugin U (next_block a s))) ! 0) = [0, 7, 8]
         \<and> curBlockSize s' = 2 \<and> curDelay s' = 0 \<and> delayRemaining s' = 1
         \<and> window 0 2 (outBuffer s' ! 0) = [7, 8])
   \<and> (let U = DelayUnit 0 id 1 3 False; a = monoArgs 2 0 3; s = monoStart U 3 6 0 [7, 8, 9];
          s' = snd (loop_body U a s)
      in curBlockSize s' = 3 \<and> curDelay s' = 0 \<and> delayRemaining s' = 0
         \<and> window 0 3 (outBuffer s' ! 0) = [7, 8, 9])
   \<and> (let U = (DelayUnit 3 id 1 2 False)\<lparr>GetType := EffectTypeGenerate\<rparr>; a = monoArgs 2 0 0;
          s = monoStart U 2 4 3 []; s' = snd (loop_body U a s)
      in \<not> isProcessor U \<and> delayRemaining s = 3 \<and> curBlockSize s' = 2 \<and> curDelay s' = 0
         \<and> delayRemaining s' = 1
         \<and> loop_body (U\<lparr>GetLatency := (\<lambda>e. (5, e))\<rparr>) a s = loop_body U a s)"
proof -
  let ?U1 = "DelayUnit 3 id 1 2 False :: (int DelayState, int) EffectUnit"
  let ?a1 = "monoArgs 2 0 4"
  let ?s1 = "monoStart ?U1 2 4 0 [7, 8, 9, 10]"
  have h1: "fst (call_plugin ?U1 (next_block ?a1 ?s1)) = None"
    by (simp add: first_iteration)
  have v1: "isProcessor ?U1" "curBlockSize (next_block ?a1 ?s1) = 2" "curDelay ?s1 = 0"
    "delayRemaining (next_block ?a1 ?s1) = 0" "inputRemaining ?s1 = 4"
    "fst (GetLatency ?U1 (client (eff (snd (call_plugin ?U1 (next_block ?a1 ?s1)))))) = 3"
    by (simp_all add: first_iteration)
  have c1: "isProcessor ?U1 \<and> curBlockSize (next_block ?a1 ?s1) = 2
       \<and> curBlockSize (snd (loop_body ?U1 ?a1 ?s1)) = 0 \<and> curDelay (snd (loop_body ?U1 ?a1 ?s1)) = 1
       \<and> delayRemaining (snd (loop_body ?U1 ?a1 ?s1)) = 3
       \<and> block_loop ?U1 ?a1 ?s1
           = (if fst (loop_body ?U1 ?a1 ?s1) = Continue
              then block_loop ?U1 ?a1 (snd (loop_body ?U1 ?a1 ?s1))
              else Some (loop_body ?U1 ?a1 ?s1))"
    using block_loop_delay_compensation [OF h1] by (simp add: Let_def v1 del: One_nat_def)
  let ?U2 = "DelayUnit 1 id 1 3 False :: (int DelayState, int) EffectUnit"
  let ?a2 = "monoArgs 2 0 3"
  let ?s2 = "monoStart ?U2 3 6 0 [7, 8, 9]"
  have h2: "fst (call_plugin ?U2 (next_block ?a2 ?s2)) = None"
    by (simp add: first_iteration)
  have v2: "isProcessor ?U2" "curBlockSize (next_block ?a2 ?s2) = 3" "curDelay ?s2 = 0"
    "delayRemaining (next_block ?a2 ?s2) = 0" "chans ?s2 = 1" "outBufPos ?s2 = [0]"
    "fst (GetLatency ?U2 (client (eff (snd (call_plugin ?U2 (next_block ?a2 ?s2)))))) = 1"
    "outBuffer (snd (call_plugin ?U2 (next_block ?a2 ?s2))) = [[0, 7, 8, 0, 0, 0, 0, 0, 0]]"
    by (simp_all add: first_iteration)
  have c2: "curBlockSize (next_block ?a2 ?s2) = 3
         \<and> window 0 3 (outBuffer (snd (call_plugin ?U2 (next_block ?a2 ?s2))) ! 0) = [0, 7, 8]
         \<and> curBlockSize (snd (loop_body ?U2 ?a2 ?s2)) = 2
         \<and> curDelay (snd (loop_body ?U2 ?a2 ?s2)) = 0
         \<and> delayRemaining (snd (loop_body ?U2 ?a2 ?s2)) = 1
         \<and> window 0 2 (outBuffer (snd (loop_body ?U2 ?a2 ?s2)) ! 0) = [7, 8]"
    using block_loop_delay_compensation [OF h2] by (clarsimp simp add: Let_def v2 window_def simp del: One_nat_def)
  let ?U3 = "DelayUnit 0 id 1 3 False :: (int DelayState, int) EffectUnit"
  let ?s3 = "monoStart ?U3 3 6 0 [7, 8, 9]"
  have h3: "fst (call_plugin ?U3 (next_block ?a2 ?s3)) = None"
    by (simp add: first_iteration)
  have v3: "isProcessor ?U3" "curBlockSize (next_block ?a2 ?s3) = 3" "curDelay ?s3 = 0"
    "delayRemaining (next_block ?a2 ?s3) = 0"
    "fst (GetLatency ?U3 (client (eff (snd (call_plugin ?U3 (next_block ?a2 ?s3)))))) = 0"
    "outBuffer (snd (call_plugin ?U3 (next_block ?a2 ?s3))) = [[7, 8, 9, 0, 0, 0, 0, 0, 0]]"
    by (simp_all add: first_iteration)
  have c3: "curBlockSize (snd (loop_body ?U3 ?a2 ?s3)) = 3
         \<and> curDelay (snd (loop_body ?U3 ?a2 ?s3)) = 0
         \<and> delayRemaining (snd (loop_body ?U3 ?a2 ?s3)) = 0
         \<and> window 0 3 (outBuffer (snd (loop_body ?U3 ?a2 ?s3)) ! 0) = [7, 8, 9]"
    using block_loop_delay_compensation [OF h3] by (clarsimp simp add: Let_def v3 window_def simp del: One_nat_def)
  let ?U4 = "(DelayUnit 3 id 1 2 False :: (int DelayState, int) EffectUnit)
               \<lparr>GetType := EffectTypeGenerate\<rparr>"
  let ?a4 = "monoArgs 2 0 0"
  let ?s4 = "monoStart ?U4 2 4 3 []"
  have h4: "fst (call_plugin ?U4 (next_block ?a4 ?s4)) = None"
    by (simp add: first_iteration)
  have v4: "\<not> isProcessor ?U4" "curBlockSize (next_block ?a4 ?s4) = 2" "curDelay ?s4 = 0"
    "delayRemaining (next_block ?a4 ?s4) = 1" "delayRemaining ?s4 = 3"
    by (simp_all add: first_iteration)
  have c4: "\<not> isProcessor ?U4 \<and> delayRemaining ?s4 = 3
         \<and> curBlockSize (snd (loop_body ?U4 ?a4 ?s4)) = 2
         \<and> curDelay (snd (loop_body ?U4 ?a4 ?s4)) = 0
         \<and> delayRemaining (snd (loop_body ?U4 ?a4 ?s4)) = 1
         \<and> loop_body (?U4\<lparr>GetLatency := (\<lambda>e. (5, e))\<rparr>) ?a4 ?s4 = loop_body ?U4 ?a4 ?s4"
    using block_loop_delay_compensation [OF h4] by (simp add: Let_def v4 del: One_nat_def)
  from c1 c2 c3 c4 show ?thesis
    unfolding Let_def by (intro conjI) (elim conjE, assumption)+
qed

section \<open>The size of the block handed to the plugin\<close>

lemma refill_input_fields [simp]:
  "inputRemaining (refill_input a s) = inputRemaining s"
  "delayRemaining (refill_input a s) = delayRemaining s"
  "eff (refill_input a s) = eff s"
  "length (inBuffer (refill_input a s)) = length (inBuffer s)"
  "length (inBufPos (refill_input a s)) = length (inBufPos s)"
  by (simp_all add: refill_input_def Let_def upd_row_def split: option.splits)

lemma write_at_within:
  assumes "p + length vs \<le> length buf"
  shows "write_at p vs buf = take p buf @ vs @ drop (p + length vs) buf"
  using assms by (simp add: write_at_def)

lemma last_block_sizes:
  assumes "0 < inputRemaining s" "inputRemaining s < int (mBlockSize (eff s))"
  shows "curBlockSize (last_block s)
           = nat (inputRemaining s)
             + (if 0 < delayRemaining s
                then min (mBlockSize (eff s) - nat (inputRemaining s)) (nat (delayRemaining s))
                else 0)"
    and "inputRemaining (last_block s) = 0"
    and "delayRemaining (last_block s)
           = delayRemaining s
             - int (if 0 < delayRemaining s
                    then min (mBlockSize (eff s) - nat (inputRemaining s)) (nat (delayRemaining s))
                    else 0)"
    and "inBufPos (last_block s) = inBufPos s"
    and "length (inBuffer (last_block s)) = length (inBuffer s)"
  using assms
  by (auto simp add: last_block_def Let_def limitSampleBufferSize_def min_def max_def)

lemma last_block_rows:
  fixes s :: "('e, 'a::zero) pt_state"
  assumes "i < length (inBuffer s)"
  shows "i < mNumChannels (eff s) \<Longrightarrow>
           inBufPos s ! i + mBlockSize (eff s) \<le> length (inBuffer s ! i) \<Longrightarrow>
           0 < inputRemaining s \<Longrightarrow> inputRemaining s < int (mBlockSize (eff s)) \<Longrightarrow>
           inBuffer (last_block s) ! i
             = take (inBufPos s ! i + nat (inputRemaining s)) (inBuffer s ! i)
               @ replicate (mBlockSize (eff s) - nat (inputRemaining s)) 0
               @ drop (inBufPos s ! i + mBlockSize (eff s)) (inBuffer s ! i)"
    and "\<not> i < mNumChannels (eff s) \<Longrightarrow> inBuffer (last_block s) ! i = inBuffer s ! i"
proof -
  let ?cnt = "mBlockSize (eff s) - nat (inputRemaining s)"
  let ?p = "inBufPos s ! i + nat (inputRemaining s)"
  have row: "inBuffer (last_block s) ! i
               = (if i < mNumChannels (eff s)
                  then write_at ?p (replicate ?cnt 0) (inBuffer s ! i) else inBuffer s ! i)"
    using assms by (simp add: last_block_def Let_def nth_upd_rows)
  show "\<not> i < mNumChannels (eff s) \<Longrightarrow> inBuffer (last_block s) ! i = inBuffer s ! i"
    by (simp add: row)
  assume a: "i < mNumChannels (eff s)"
    "inBufPos s ! i + mBlockSize (eff s) \<le> length (inBuffer s ! i)"
    "0 < inputRemaining s" "inputRemaining s < int (mBlockSize (eff s))"
  then have "?p + length (replicate ?cnt (0::'a)) \<le> length (inBuffer s ! i)"
    and e: "?p + ?cnt = inBufPos s ! i + mBlockSize (eff s)"
    by simp_all
  from write_at_within [OF this(1)] a(1) e
  show "inBuffer (last_block s) ! i
          = take ?p (inBuffer s ! i) @ replicate ?cnt 0
            @ drop (inBufPos s ! i + mBlockSize (eff s)) (inBuffer s ! i)"
    by (simp add: row)
qed

text \<open>The block of an iteration with input left: its size, what it takes of the input
  and of the delay, and the rows it leaves.\<close>

lemma input_phase_cases:
  fixes s :: "('e, 'a::zero) pt_state"
  assumes "0 < inputRemaining s"
  shows
    "(let B = mBlockSize (eff s);
          r = inputRemaining s;
          dR = delayRemaining s;
          sR = (if inputBufferCnt s = 0 then refill_input a s else s);
          s1 = input_phase a s;
          folded = (if r < int B \<and> 0 < dR then min (B - nat r) (nat dR) else 0)
      in curBlockSize s1 = nat (min (int B) r) + folded
       \<and> curBlockSize s1 \<le> B
       \<and> delayRemaining s1 = dR - int folded
       \<and> inBufPos s1 = inBufPos sR
       \<and> (int B \<le> r \<longrightarrow> inputRemaining s1 = r \<and> inBuffer s1 = inBuffer sR)
       \<and> (r < int B \<longrightarrow>
             inputRemaining s1 = 0
           \<and> int (curBlockSize s1) + delayRemaining s1 = r + dR
           \<and> length (inBuffer s1) = length (inBuffer sR)
           \<and> (\<forall>i. i < length (inBuffer sR) \<longrightarrow>
                  (if i < mNumChannels (eff s)
                   then inBufPos sR ! i + B \<le> length (inBuffer sR ! i) \<longrightarrow>
                        inBuffer s1 ! i
                          = take (inBufPos sR ! i + nat r) (inBuffer sR ! i)
                            @ replicate (B - nat r) 0
                            @ drop (inBufPos sR ! i + B) (inBuffer sR ! i)
                   else inBuffer s1 ! i = inBuffer sR ! i))))"
proof -
  define s1 where "s1 = (if inputBufferCnt s = 0 then refill_input a s else s)"
  define s2 where "s2 = s1\<lparr>curBlockSize := mBlockSize (eff s1)\<rparr>"
  have f1: "inputRemaining s1 = inputRemaining s" "delayRemaining s1 = delayRemaining s"
           "eff s1 = eff s"
    by (simp_all add: s1_def)
  have f: "inputRemaining s2 = inputRemaining s" "delayRemaining s2 = delayRemaining s"
          "eff s2 = eff s" "inBufPos s2 = inBufPos s1" "inBuffer s2 = inBuffer s1"
    by (simp_all add: s2_def f1)
  have ip: "input_phase a s = (if int (mBlockSize (eff s)) > inputRemaining s then last_block s2 else s2)"
    by (simp add: input_phase_def Let_def s1_def s2_def)
  show ?thesis
  proof (cases "inputRemaining s < int (mBlockSize (eff s))")
    case False
    then show ?thesis
      unfolding s1_def [symmetric] Let_def
      by (simp add: ip f f1 min_def) (simp add: s2_def f1)
  next
    case True
    have h: "0 < inputRemaining s2" "inputRemaining s2 < int (mBlockSize (eff s2))"
      using assms True by (simp_all add: f)
    note sz = last_block_sizes [OF h, unfolded f]
    have rows: "(if i < mNumChannels (eff s)
                 then inBufPos s1 ! i + mBlockSize (eff s) \<le> length (inBuffer s1 ! i) \<longrightarrow>
                      inBuffer (last_block s2) ! i
                        = take (inBufPos s1 ! i + nat (inputRemaining s)) (inBuffer s1 ! i)
                          @ replicate (mBlockSize (eff s) - nat (inputRemaining s)) 0
                          @ drop (inBufPos s1 ! i + mBlockSize (eff s)) (inBuffer s1 ! i)
                 else inBuffer (last_block s2) ! i = inBuffer s1 ! i)"
      if "i < length (inBuffer s1)" for i
    proof -
      from that have i2: "i < length (inBuffer s2)" by (simp add: f)
      from last_block_rows [OF i2, unfolded f] h [unfolded f] show ?thesis
        by simp
    qed
    have le: "curBlockSize (last_block s2) \<le> mBlockSize (eff s)"
      using True assms unfolding sz by (simp add: min_def) arith
    show ?thesis
      unfolding s1_def [symmetric] Let_def
      using True assms rows le
      by (simp add: ip sz [symmetric] f) (simp add: sz min_def)
  qed
qed

text \<open>
  Claim C4.  Take an iteration of the block loop that starts in the Run State \<open>s\<close> with
  \<open>inputRemaining > 0\<close>; \<open>sR\<close> is \<open>s\<close> with the input buffers refilled if they were empty,
  \<open>s1\<close> the state in which \<open>ProcessBlock\<close> is called, \<open>s'\<close> the state at the end of the
  iteration.  The loop runs the iteration: the plugin is called on \<open>s1\<close>, and the call is
  traced with the block size of \<open>s1\<close>.  That block size is \<open>min(mBlockSize, inputRemaining)\<close>
  plus the delay samples folded in, and at most \<open>mBlockSize\<close>.  Nothing is folded in unless
  this is the final partial block and \<open>delayRemaining > 0\<close>; then the folded count is the
  smaller of the room left in the block and \<open>delayRemaining\<close>, and \<open>delayRemaining\<close>
  decreases by exactly that count.  A full block leaves \<open>inputRemaining\<close> and the input
  rows as they are.  On the final partial block \<open>inputRemaining\<close> becomes 0, the block size
  and the delay still owed add up to the input and the delay owed before (nothing is
  counted twice), and every channel row that holds the block keeps its samples up to the
  end of the input, is zero from there up to \<open>mBlockSize\<close> samples from the position, and
  keeps what follows; the rows that are not of the channels stay.  When the call returns,
  the iteration ends with the input left decreased by \<open>min(mBlockSize, inputRemaining)\<close>,
  and with the delay owed decreased by the folded count and, for a processor, increased
  by the latency reported after the call.
\<close>

theorem block_loop_input_block:
  fixes U :: "('e, 'a::zero) EffectUnit" and s :: "('e, 'a) pt_state"
  assumes "0 < inputRemaining s"
  shows
    "(let B = mBlockSize (eff s);
          r = inputRemaining s;
          dR = delayRemaining s;
          sR = (if inputBufferCnt s = 0 then refill_input a s else s);
          s1 = next_block a s;
          s2 = snd (call_plugin U s1);
          s' = snd (loop_body U a s);
          folded = (if r < int B \<and> 0 < dR then min (B - nat r) (nat dR) else 0)
      in block_loop U a s
           = (if fst (loop_body U a s) = Continue then block_loop U a s'
              else Some (loop_body U a s))
       \<and> loop_body U a s = after_call U a (call_plugin U s1)
       \<and> trace (eff s2)
           = trace (eff s) @ [EvProcessBlock (length (plugin_inputs s1)) (curBlockSize s1)]
       \<and> (fst (call_plugin U s1) = None \<longrightarrow>
             inputRemaining s' = r - min (int B) r
           \<and> delayRemaining s'
               = dR - int folded
                 + (if isProcessor U then fst (GetLatency U (client (eff s2))) else 0))
       \<and> curBlockSize s1 = nat (min (int B) r) + folded
       \<and> curBlockSize s1 \<le> B
       \<and> delayRemaining s1 = dR - int folded
       \<and> inBufPos s1 = inBufPos sR
       \<and> (int B \<le> r \<longrightarrow> inputRemaining s1 = r \<and> inBuffer s1 = inBuffer sR)
       \<and> (r < int B \<longrightarrow>
             inputRemaining s1 = 0
           \<and> int (curBlockSize s1) + delayRemaining s1 = r + dR
           \<and> length (inBuffer s1) = length (inBuffer sR)
           \<and> (\<forall>i. i < length (inBuffer sR) \<longrightarrow>
                  (if i < mNumChannels (eff s)
                   then inBufPos sR ! i + B \<le> length (inBuffer sR ! i) \<longrightarrow>
                        inBuffer s1 ! i
                          = take (inBufPos sR ! i + nat r) (inBuffer sR ! i)
                            @ replicate (B - nat r) 0
                            @ drop (inBufPos sR ! i + B) (inBuffer sR ! i)
                   else inBuffer s1 ! i = inBuffer sR ! i))))"
proof -
  let ?s1 = "next_block a s"
  let ?s2 = "snd (call_plugin U ?s1)"
  let ?b = "bump_input ?s2"
  let ?d = "delay_compensation U ?b"
  let ?s' = "snd (loop_body U a s)"
  have nb: "next_block a s = input_phase a s"
    using assms by (simp add: next_block_def)
  note ip = input_phase_cases [OF assms, of a, folded nb, unfolded Let_def]
  have l: "block_loop U a s
             = (if fst (loop_body U a s) = Continue then block_loop U a ?s'
                else Some (loop_body U a s))"
    using assms by (intro block_loop_step) simp
  have tr: "trace (eff ?s2)
              = trace (eff s) @ [EvProcessBlock (length (plugin_inputs ?s1)) (curBlockSize ?s1)]"
  proof -
    from eff_call_plugin [of U ?s1] obtain e where
      "eff ?s2 = (eff ?s1)\<lparr>trace := trace (eff ?s1)
                    @ [EvProcessBlock (length (plugin_inputs ?s1)) (curBlockSize ?s1)],
                  client := e\<rparr>"
      by auto
    then show ?thesis by simp
  qed
  have dl: "delayRemaining ?s1
              = delayRemaining s
                - int (if inputRemaining s < int (mBlockSize (eff s)) \<and> 0 < delayRemaining s
                       then min (mBlockSize (eff s) - nat (inputRemaining s))
                              (nat (delayRemaining s))
                       else 0)"
    using ip by (elim conjE)
  have ret: "fst (call_plugin U ?s1) = None \<longrightarrow>
             inputRemaining ?s' = inputRemaining s - min (int (mBlockSize (eff s))) (inputRemaining s)
           \<and> delayRemaining ?s'
               = delayRemaining s
                 - int (if inputRemaining s < int (mBlockSize (eff s)) \<and> 0 < delayRemaining s
                        then min (mBlockSize (eff s) - nat (inputRemaining s))
                               (nat (delayRemaining s))
                        else 0)
                 + (if isProcessor U then fst (GetLatency U (client (eff ?s2))) else 0)"
  proof
    assume c: "fst (call_plugin U ?s1) = None"
    from loop_body_returned [OF c] obtain e r where
      s': "?s' = (output_phase U a ?d)\<lparr>eff := e, rc := r\<rparr>"
      by blast
    have i: "inputRemaining ?s' = inputRemaining ?b" "delayRemaining ?s' = delayRemaining ?d"
      by (simp_all add: s')
    have dd: "delayRemaining ?d
                = delayRemaining ?s1
                  + (if isProcessor U then fst (GetLatency U (client (eff ?s2))) else 0)"
      by (simp add: delay_compensation_def Let_def split: prod.splits)
    have "inputRemaining ?b
            = (if inputRemaining ?s1 \<noteq> 0 then inputRemaining ?s1 - int (curBlockSize ?s1)
               else 0)"
      by (simp add: bump_input_def Let_def)
    with ip assms
    have "inputRemaining ?b
            = inputRemaining s - min (int (mBlockSize (eff s))) (inputRemaining s)"
      by (cases "inputRemaining s < int (mBlockSize (eff s))") (simp_all add: min_def)
    with i dd show "inputRemaining ?s' = inputRemaining s - min (int (mBlockSize (eff s))) (inputRemaining s)
           \<and> delayRemaining ?s'
               = delayRemaining s
                 - int (if inputRemaining s < int (mBlockSize (eff s)) \<and> 0 < delayRemaining s
                        then min (mBlockSize (eff s) - nat (inputRemaining s))
                               (nat (delayRemaining s))
                        else 0)
                 + (if isProcessor U then fst (GetLatency U (client (eff ?s2))) else 0)"
      unfolding dl [symmetric] by simp
  qed
  have body: "loop_body U a s = after_call U a (call_plugin U ?s1)"
    by (simp add: loop_body_def)
  show ?thesis
    unfolding Let_def
    by (rule conjI [OF l conjI [OF body conjI [OF tr conjI [OF ret ip]]]])
qed


text \<open>A mono run of three samples with block size 2, buffer size 2 and a latency of 1.
  The first iteration has a full block.  The second iteration starts with one sample of
  input and one of delay left, and refills the row to \<open>[9, 8]\<close>: its block is the input
  sample and the delay sample, and the second sample of the row is cleared.\<close>

lemma DelayUnit_returns: "fst (call_plugin (DelayUnit L g c B once) s) = None"
  by (simp add: call_plugin_def DelayUnit_def Let_def)

theorem block_loop_input_block_witness:
  "(let U = DelayUnit 1 id 1 2 False; a = monoArgs 2 0 3; s = monoStart U 2 2 0 [7, 8, 9];
        s1 = next_block a s; s' = snd (loop_body U a s)
    in inputRemaining s = 3 \<and> mBlockSize (eff s) = 2
       \<and> curBlockSize s1 = 2 \<and> inputRemaining s1 = 3 \<and> delayRemaining s1 = 0
       \<and> inBuffer s1 = [[7, 8]] \<and> inputRemaining s' = 1 \<and> delayRemaining s' = 1
       \<and> block_loop U a s = (if fst (loop_body U a s) = Continue then block_loop U a s'
                              else Some (loop_body U a s)))
   \<and> (let U = DelayUnit 1 id 1 2 False; a = monoArgs 2 0 3;
          s = snd (loop_body U a (monoStart U 2 2 0 [7, 8, 9]));
          s1 = next_block a s; s' = snd (loop_body U a s)
      in inputRemaining s = 1 \<and> delayRemaining s = 1 \<and> mBlockSize (eff s) = 2
         \<and> inBuffer (refill_input a s) = [[9, 8]]
         \<and> curBlockSize s1 = 2 \<and> inputRemaining s1 = 0 \<and> delayRemaining s1 = 0
         \<and> inBuffer s1 = [[9, 0]] \<and> inputRemaining s' = 0 \<and> delayRemaining s' = 1)"
proof -
  let ?U = "DelayUnit 1 id 1 2 False :: (int DelayState, int) EffectUnit"
  let ?a = "monoArgs 2 0 3"
  let ?init = "monoStart ?U 2 2 0 [7, 8, 9]"
  let ?next = "snd (loop_body ?U ?a ?init)"
  have u: "isProcessor ?U" "fst (GetLatency ?U e) = 1" for e
    by (simp_all add: isProcessor_def DelayUnit_def)
  have v0: "inputRemaining ?init = 3" "delayRemaining ?init = 0" "mBlockSize (eff ?init) = 2"
    "inputBufferCnt ?init = 0" "inBuffer (refill_input ?a ?init) = [[7, 8]]"
    by (simp_all add: first_iteration)
  have c0: "inputRemaining ?init = 3 \<and> mBlockSize (eff ?init) = 2
       \<and> curBlockSize (next_block ?a ?init) = 2 \<and> inputRemaining (next_block ?a ?init) = 3
       \<and> delayRemaining (next_block ?a ?init) = 0
       \<and> inBuffer (next_block ?a ?init) = [[7, 8]]
       \<and> inputRemaining ?next = 1 \<and> delayRemaining ?next = 1
       \<and> block_loop ?U ?a ?init
           = (if fst (loop_body ?U ?a ?init) = Continue then block_loop ?U ?a ?next
              else Some (loop_body ?U ?a ?init))"
  proof -
    have "0 < inputRemaining ?init" by (simp only: v0)
    note t = block_loop_input_block [where s = ?init and U = ?U and a = ?a, OF this,
               unfolded Let_def]
    from t [THEN conjunct1] t [THEN conjunct2, THEN conjunct2, THEN conjunct2]
    show ?thesis
      by (clarsimp simp add: v0 u DelayUnit_returns simp del: One_nat_def)
  qed
  have "(let s = ?next
         in mBlockSize (eff s) = 2 \<and> inputBufferCnt s = 0 \<and> mNumChannels (eff s) = 1
          \<and> inBuffer (refill_input ?a s) = [[9, 8]] \<and> inBufPos (refill_input ?a s) = [0])"
    by code_simp
  then have v: "inputRemaining ?next = 1" "delayRemaining ?next = 1" "mBlockSize (eff ?next) = 2"
    "inputBufferCnt ?next = 0" "mNumChannels (eff ?next) = 1"
    "inBuffer (refill_input ?a ?next) = [[9, 8]]" "inBufPos (refill_input ?a ?next) = [0]"
    using c0 unfolding Let_def by simp_all
  have r1: "replicate 1 (0::int) = [0]" by simp
  have one_row: "length xs = Suc 0 \<Longrightarrow> xs ! 0 = r \<Longrightarrow> xs = [r]" for xs :: "int list list" and r
    by (cases xs) simp_all
  have c: "inputRemaining ?next = 1 \<and> delayRemaining ?next = 1 \<and> mBlockSize (eff ?next) = 2
         \<and> inBuffer (refill_input ?a ?next) = [[9, 8]]
         \<and> curBlockSize (next_block ?a ?next) = 2 \<and> inputRemaining (next_block ?a ?next) = 0
         \<and> delayRemaining (next_block ?a ?next) = 0
         \<and> inBuffer (next_block ?a ?next) = [[9, 0]]
         \<and> inputRemaining (snd (loop_body ?U ?a ?next)) = 0
         \<and> delayRemaining (snd (loop_body ?U ?a ?next)) = 1"
  proof -
    have "0 < inputRemaining ?next" by (simp only: v)
    note t = block_loop_input_block [where s = ?next and U = ?U and a = ?a, OF this,
               unfolded Let_def]
    from t [THEN conjunct2, THEN conjunct2, THEN conjunct2]
    show ?thesis
      by (clarsimp simp add: v u r1 DelayUnit_returns simp del: One_nat_def)
         (rule one_row; assumption)
  qed
  from c0 c show ?thesis
    unfolding Let_def by (intro conjI) (elim conjE, assumption)+
qed

section \<open>The count returned by the plugin\<close>

lemma with_count_fields [simp]:
  "GetType (with_count f U) = GetType U"
  "GetLatency (with_count f U) = GetLatency U"
  "ProcessInitialize (with_count f U) = ProcessInitialize U"
  "ProcessFinalize (with_count f U) = ProcessFinalize U"
  "ProgressUpdate (with_count f U) = ProgressUpdate U"
  "dbl_add (with_count f U) = dbl_add U"
  "dbl_quot (with_count f U) = dbl_quot U"
  "dbl_samples (with_count f U) = dbl_samples U"
  by (simp_all add: with_count_def)

lemma call_plugin_with_count: "call_plugin (with_count f U) s = call_plugin U s"
  by (simp add: call_plugin_def with_count_def Let_def split: prod.splits sum.splits)

lemma phases_with_count:
  "delay_compensation (with_count f U) s = delay_compensation U s"
  "write_output (with_count f U) a s = write_output U a s"
  "output_phase (with_count f U) a s = output_phase U a s"
  "report_progress (with_count f U) a s = report_progress U a s"
  by (simp_all add: delay_compensation_def output_phase_def Let_def
        write_output_def report_progress_def isProcessor_def isGenerator_def
        TrackProgress_def TrackGroupProgress_def)

lemma after_call_with_count: "after_call (with_count f U) a c = after_call U a c"
  unfolding after_call_def phases_with_count ..

lemma loop_body_with_count: "loop_body (with_count f U) a = loop_body U a"
  unfolding loop_body_def call_plugin_with_count after_call_with_count ..

text \<open>
  Claim C8.  The count that \<open>ProcessBlock\<close> returns is not used: whatever count a unit
  returns from any of its calls, equal to \<open>curBlockSize\<close> or not, \<open>ProcessTrack\<close> gives the
  same result, the same buffers and the same Effect object, and so goes on through the
  group as it would with the right count.  (The comparison with \<open>curBlockSize\<close> is an
  assertion of debug builds and changes no state.)
\<close>

theorem ProcessTrack_ignores_processed:
  "ProcessTrack (with_count f U) a b s = ProcessTrack U a b s"
proof -
  have 1: "pt_initial (with_count f U) = pt_initial U"
    by (intro ext) (simp add: pt_initial_def isGenerator_def Let_def)
  have 2: "run_finalize (with_count f U) = run_finalize U"
    by (intro ext) (simp add: run_finalize_def)
  have 3: "finish_track (with_count f U) = finish_track U"
    by (intro ext) (simp add: finish_track_def phases_with_count isGenerator_def)
  show ?thesis
    unfolding ProcessTrack_def block_loop_cong [OF loop_body_with_count] 1 2 3 with_count_fields ..
qed



section \<open>Exceptions thrown by the plugin\<close>


















section \<open>What a pass leaves as it is\<close>

lemma passes_append [simp]: "passes (xs @ ys) = passes xs @ passes ys"
  by (induction xs rule: passes.induct) simp_all

lemma reinits_append [simp]: "reinits (xs @ ys) = reinits xs @ reinits ys"
  by (induction xs rule: reinits.induct) simp_all

lemma track_calls_append [simp]: "track_calls (xs @ ys) = track_calls xs @ track_calls ys"
  by (induction xs rule: track_calls.induct) simp_all

lemma blocks_projections:
  assumes "list_all is_block bl"
  shows "passes bl = []" and "reinits bl = []" and "track_calls bl = []"
proof -
  have "passes bl = [] \<and> reinits bl = [] \<and> track_calls bl = []"
    using assms
  proof (induction bl)
    case Nil
    show ?case by simp
  next
    case (Cons ev bl)
    then show ?case by (cases ev) simp_all
  qed
  then show "passes bl = []" and "reinits bl = []" and "track_calls bl = []"
    by simp_all
qed

lemma same_setup_refl [simp]: "same_setup s s"
  by (simp add: same_setup_def)

lemma same_setup_trans: "same_setup s t \<Longrightarrow> same_setup t u \<Longrightarrow> same_setup s u"
  by (simp add: same_setup_def)

lemma same_setup_client [simp]: "same_setup s (t\<lparr>client := e\<rparr>) = same_setup s t"
  by (simp add: same_setup_def working_list_def)

lemma same_setup_trace [simp]: "same_setup s (t\<lparr>trace := e\<rparr>) = same_setup s t"
  by (simp add: same_setup_def working_list_def)

lemma same_setup_nextIdent [simp]: "same_setup s (t\<lparr>nextIdent := e\<rparr>) = same_setup s t"
  by (simp add: same_setup_def working_list_def)

lemma ident_update_track:
  assumes "\<And>t. ident (f t) = ident t"
  shows "map ident (update_track p f ts) = map ident ts"
  using assms by (induction ts) (simp_all add: update_track_def)

lemma same_setup_track_upd:
  assumes "\<And>t. ident (f t) = ident t"
  shows "same_setup s (track_upd p f t) = same_setup s t"
  using ident_update_track [of f p, OF assms]
  by (cases "mOutputTracks t") (simp_all add: same_setup_def track_upd_def working_list_def)

lemma ident_WaveTrack_Set [simp]: "ident (WaveTrack_Set buf st n t) = ident t"
  by (simp add: WaveTrack_Set_def)

lemma ident_WaveTrack_ClearAndPaste [simp]: "ident (WaveTrack_ClearAndPaste t0 t1 src t) = ident t"
  by (simp add: WaveTrack_ClearAndPaste_def Let_def)

lemma eff_delay_compensation: "\<exists>e. eff (delay_compensation U s) = (eff s)\<lparr>client := e\<rparr>"
proof (cases "isProcessor U")
  case False
  show ?thesis
    by (rule exI [of _ "client (eff s)"]) (simp add: delay_compensation_def False)
next
  case True
  obtain d e where g: "GetLatency U (client (eff s)) = (d, e)"
    by (cases "GetLatency U (client (eff s))")
  show ?thesis
    by (rule exI [of _ e]) (simp add: delay_compensation_def Let_def True g)
qed

lemma track_upd_fields [simp]:
  "trace (track_upd p f s) = trace s"
  "client (track_upd p f s) = client s"
  by (simp_all add: track_upd_def)

lemma write_output_frame:
  "same_setup t (eff (write_output U a s)) = same_setup t (eff s)"
  "trace (eff (write_output U a s)) = trace (eff s)"
  "client (eff (write_output U a s)) = client (eff s)"
  by (simp_all add: write_output_def Let_def same_setup_track_upd split: option.splits)

lemma output_phase_frame:
  "same_setup t (eff (output_phase U a s)) = same_setup t (eff s)"
  "trace (eff (output_phase U a s)) = trace (eff s)"
  "client (eff (output_phase U a s)) = client (eff s)"
  by (simp_all add: output_phase_def Let_def write_output_frame)

lemma TrackProgress_frame:
  "\<exists>e. snd (TrackProgress U n x s) = s\<lparr>client := e\<rparr>"
  "\<exists>e. snd (TrackGroupProgress U n x s) = s\<lparr>client := e\<rparr>"
proof -
  show "\<exists>e. snd (TrackProgress U n x s) = s\<lparr>client := e\<rparr>"
  proof (cases "mProgress s")
    case False
    show ?thesis
      by (rule exI [of _ "client s"]) (simp add: TrackProgress_def False)
  next
    case True
    obtain r e where u: "ProgressUpdate U (dbl_add U (real n) x) (real (mNumTracks s)) (client s) = (r, e)"
      by (cases "ProgressUpdate U (dbl_add U (real n) x) (real (mNumTracks s)) (client s)")
    show ?thesis
      by (rule exI [of _ e]) (simp add: TrackProgress_def True u)
  qed
  show "\<exists>e. snd (TrackGroupProgress U n x s) = s\<lparr>client := e\<rparr>"
  proof (cases "mProgress s")
    case False
    show ?thesis
      by (rule exI [of _ "client s"]) (simp add: TrackGroupProgress_def False)
  next
    case True
    obtain r e where u: "ProgressUpdate U (dbl_add U (real n) x) (real (mNumGroups s)) (client s) = (r, e)"
      by (cases "ProgressUpdate U (dbl_add U (real n) x) (real (mNumGroups s)) (client s)")
    show ?thesis
      by (rule exI [of _ e]) (simp add: TrackGroupProgress_def True u)
  qed
qed

lemma report_progress_frame: "\<exists>e. eff (snd (report_progress U a s)) = (eff s)\<lparr>client := e\<rparr>"
proof -
  let ?x = "dbl_quot U (inLeftPos s - leftStart a)
              (if isGenerator U then genLength s else len a)"
  have "eff (snd (report_progress U a s))
          = snd (if mNumChannels (eff s) > 1 then TrackGroupProgress U (count a) ?x (eff s)
                 else TrackProgress U (count a) ?x (eff s))"
    unfolding report_progress_def Let_def by (simp split: prod.splits)
  then show ?thesis
    by (simp only: TrackProgress_frame split: if_splits) simp_all
qed

lemma loop_body_frame:
  "same_setup t (eff (snd (loop_body U a s))) = same_setup t (eff s)"
  "\<exists>n m. trace (eff (snd (loop_body U a s))) = trace (eff s) @ [EvProcessBlock n m]"
proof -
  let ?s1 = "next_block a s"
  obtain x s2 where cp: "call_plugin U ?s1 = (x, s2)" by (cases "call_plugin U ?s1")
  from eff_call_plugin [of U ?s1] cp obtain e where
    e2: "eff s2 = (eff s)\<lparr>trace := trace (eff s) @ [EvProcessBlock (length (plugin_inputs ?s1)) (curBlockSize ?s1)],
                           client := e\<rparr>"
    by auto
  let ?s3 = "output_phase U a (delay_compensation U (bump_input s2))"
  obtain e' where dc: "eff (delay_compensation U (bump_input s2)) = (eff s2)\<lparr>client := e'\<rparr>"
    using eff_delay_compensation [of U "bump_input s2"] by auto
  obtain stop s4 where rp: "report_progress U a ?s3 = (stop, s4)" by (cases "report_progress U a ?s3")
  obtain e'' where e4: "eff s4 = (eff ?s3)\<lparr>client := e''\<rparr>"
    using report_progress_frame [of U a ?s3] rp by auto
  have lb: "snd (loop_body U a s) = (case x of Some y \<Rightarrow> s2 | None \<Rightarrow> if stop then s4\<lparr>rc := False\<rparr> else s4)"
    by (simp add: loop_body_def after_call_def cp rp split: option.splits exn.splits)
  have A: "same_setup t (eff s2) = same_setup t (eff s)"
    by (simp add: e2)
  have B: "same_setup t (eff s4) = same_setup t (eff s)"
    by (simp add: e4 output_phase_frame dc e2)
  have C: "trace (eff s4) = trace (eff s2)"
    by (simp add: e4 output_phase_frame dc)
  show "same_setup t (eff (snd (loop_body U a s))) = same_setup t (eff s)"
    by (simp add: lb A B split: option.splits)
  show "\<exists>n m. trace (eff (snd (loop_body U a s))) = trace (eff s) @ [EvProcessBlock n m]"
    by (simp add: lb C e2 split: option.splits)
qed


lemma block_loop_frame:
  fixes s :: "('e, 'a::zero) pt_state"
  assumes "block_loop U a s = Some (f, s')"
  shows "same_setup t (eff s') = same_setup t (eff s)"
    and "\<exists>bl. trace (eff s') = trace (eff s) @ bl \<and> list_all is_block bl"
proof -
  let ?I = "\<lambda>u::('e, 'a) pt_state. (\<forall>t. same_setup t (eff u) = same_setup t (eff s))
                \<and> (\<exists>bl. trace (eff u) = trace (eff s) @ bl \<and> list_all is_block bl)"
  have "?I s'"
  proof (rule block_loop_invariant(1) [OF assms, where I = ?I])
    show "?I s" by simp
  next
    fix u
    assume I: "?I u"
    then obtain bl where bl: "trace (eff u) = trace (eff s) @ bl" "list_all is_block bl"
      by blast
    obtain n m where nm: "trace (eff (snd (loop_body U a u))) = trace (eff u) @ [EvProcessBlock n m]"
      using loop_body_frame(2) [of U a u] by blast
    have "trace (eff (snd (loop_body U a u))) = trace (eff s) @ (bl @ [EvProcessBlock n m])
            \<and> list_all is_block (bl @ [EvProcessBlock n m])"
      using bl nm by simp
    then have "\<exists>bl. trace (eff (snd (loop_body U a u))) = trace (eff s) @ bl \<and> list_all is_block bl"
      by blast
    with I show "?I (snd (loop_body U a u))"
      by (simp add: loop_body_frame(1))
  qed
  then show "same_setup t (eff s') = same_setup t (eff s)"
    and "\<exists>bl. trace (eff s') = trace (eff s) @ bl \<and> list_all is_block bl"
    by blast+
qed

lemma pt_initial_frame:
  "same_setup t (eff (pt_initial U a b s)) = same_setup t s"
  "trace (eff (pt_initial U a b s)) = trace s"
  by (simp_all add: pt_initial_def Let_def)

lemma generator_splice_frame:
  "same_setup t (eff (generator_splice a s)) = same_setup t (eff s)"
  "trace (eff (generator_splice a s)) = trace (eff s)"
  by (simp_all add: generator_splice_def Let_def same_setup_track_upd split: option.splits)

lemma finish_track_frame:
  "same_setup t (eff (finish_track U a s)) = same_setup t (eff s)"
  "trace (eff (finish_track U a s)) = trace (eff s)"
  by (simp_all add: finish_track_def Let_def generator_splice_frame write_output_frame)

lemma run_finalize_frame:
  "same_setup t (eff (snd (run_finalize U s))) = same_setup t (eff s)"
  "trace (eff (snd (run_finalize U s))) = trace (eff s)"
  by (simp_all add: run_finalize_def split: prod.splits)

lemma ProcessTrack_frame:
  assumes "ProcessTrack U a b s = Some (r, b', s')"
  shows "same_setup t s' = same_setup t s"
    and "\<exists>bl. trace s' = trace s @ EvProcessTrack (left a) (right a) # bl \<and> list_all is_block bl"
proof -
  let ?s = "s\<lparr>trace := trace s @ [EvProcessTrack (left a) (right a)]\<rparr>"
  obtain ok e where i: "ProcessInitialize U (len a) (chanMap a) (client ?s) = (ok, e)"
    by (cases "ProcessInitialize U (len a) (chanMap a) (client ?s)")
  have "same_setup t s' = same_setup t s
        \<and> (\<exists>bl. trace s' = trace s @ EvProcessTrack (left a) (right a) # bl \<and> list_all is_block bl)"
  proof (cases ok)
    case False
    with assms i have "s' = ?s\<lparr>client := e\<rparr>"
      by (simp add: ProcessTrack_def Let_def)
    then show ?thesis by simp
  next
    case True
    let ?i = "pt_initial U a b (?s\<lparr>client := e\<rparr>)"
    show ?thesis
    proof (cases "block_loop U a ?i")
      case None
      with assms i True show ?thesis
        by (simp add: ProcessTrack_def Let_def)
    next
      case (Some p)
      obtain fl s1 where p: "block_loop U a ?i = Some (fl, s1)"
        using Some by (cases p) simp
      note fr = block_loop_frame [OF p]
      from fr(2) obtain bl where bl: "trace (eff s1) = trace (eff ?i) @ bl" "list_all is_block bl"
        by blast
      define s2 where "s2 = (if fl = Rethrow \<or> fl = ReturnFalse then s1 else finish_track U a s1)"
      have s': "s' = eff (snd (run_finalize U s2))"
        using assms i True p
        by (cases fl) (auto simp add: ProcessTrack_def Let_def s2_def split: prod.splits)
      have "same_setup t s' = same_setup t s"
        by (simp add: s' run_finalize_frame s2_def finish_track_frame fr(1) pt_initial_frame)
      moreover have "trace s' = trace s @ EvProcessTrack (left a) (right a) # bl"
        by (simp add: s' run_finalize_frame s2_def finish_track_frame bl pt_initial_frame)
      ultimately show ?thesis using bl(2) by blast
    qed
  qed
  then show "same_setup t s' = same_setup t s"
    and "\<exists>bl. trace s' = trace s @ EvProcessTrack (left a) (right a) # bl \<and> list_all is_block bl"
    by blast+
qed

lemma group_select_frame:
  assumes "group_select U l v s = (start, g, s1)"
  shows "same_setup t s1 = same_setup t s" and "trace s1 = trace s"
    and "mBufferSize s1 = mBufferSize s" and "client s1 = client s"
  using assms
  by (auto simp add: group_select_def Let_def same_setup_def working_list_def)

lemma buffer_manager_result:
  assumes "buffer_manager U l hasRight v s = Some (v4, s4)"
  obtains bs e bufferSize where
    "SetBlockSize U (GetMaxBlockSize l * 2) (SetSampleRate U (GetRate l) (client s)) = (bs, e)"
    and "calcBufferSize (GetMaxBlockSize l * 2) bs = Some bufferSize"
    and "mBlockSize s4 = bs" and "mBufferSize s4 = bufferSize" and "client s4 = e"
    and "same_setup t s4 = same_setup t s"
    and "trace s4 = trace s @ (if mBufferSize s \<noteq> bufferSize
                               then [EvReinit (mNumAudioIn s) bufferSize (mNumAudioOut s) (bufferSize + bs)]
                               else [])"
proof -
  let ?s2 = "s\<lparr>client := SetSampleRate U (GetRate l) (client s), mSampleRate := GetRate l\<rparr>"
  obtain bs e where sb: "SetBlockSize U (GetMaxBlockSize l * 2) (client ?s2) = (bs, e)"
    by (cases "SetBlockSize U (GetMaxBlockSize l * 2) (client ?s2)")
  show ?thesis
  proof (cases "calcBufferSize (GetMaxBlockSize l * 2) bs")
    case None
    with assms sb show ?thesis
      by (simp add: buffer_manager_def Let_def)
  next
    case (Some bufferSize)
    let ?s3 = "?s2\<lparr>client := e, mBlockSize := bs, mBufferSize := bufferSize\<rparr>"
    have s4: "s4 = (if mBufferSize s \<noteq> bufferSize
                    then ?s3\<lparr>trace := trace s @
                                   [EvReinit (mNumAudioIn s) bufferSize
                                      (mNumAudioOut s) (bufferSize + bs)]\<rparr>
                    else ?s3)"
      using assms sb Some by (simp add: buffer_manager_def Let_def split: if_splits)
    have "mBlockSize s4 = bs" "mBufferSize s4 = bufferSize" "client s4 = e"
      "same_setup t s4 = same_setup t s"
      "trace s4 = trace s @ (if mBufferSize s \<noteq> bufferSize
                               then [EvReinit (mNumAudioIn s) bufferSize (mNumAudioOut s) (bufferSize + bs)]
                               else [])"
      by (simp_all add: s4 same_setup_def working_list_def)
    with that sb Some show ?thesis by simp
  qed
qed

lemma group_setup_result:
  assumes "group_setup U l v s = Some (a, v4, s4)"
  obtains start g s1 where "group_select U l v s = (start, g, s1)"
    and "buffer_manager U l (g_right g \<noteq> None) (v\<lparr>cmap := g_map g, clear := g_clear g\<rparr>) s1
           = Some (v4, s4)"
    and "a = \<lparr>count = gcount v4, chanMap = cmap v4, left = ident l, right = g_right g,
               leftStart = start, rightStart = g_rightStart g, len = g_len g\<rparr>"
proof -
  obtain start g s1 where gs: "group_select U l v s = (start, g, s1)"
    by (cases "group_select U l v s")
  show ?thesis
  proof (cases "buffer_manager U l (g_right g \<noteq> None) (v\<lparr>cmap := g_map g, clear := g_clear g\<rparr>) s1")
    case None
    with assms gs show ?thesis by (simp add: group_setup_def)
  next
    case (Some q)
    obtain w u where q: "q = (w, u)" by (cases q)
    from assms gs Some q have "w = v4" "u = s4"
      and "a = \<lparr>count = gcount v4, chanMap = cmap v4, left = ident l, right = g_right g,
               leftStart = start, rightStart = g_rightStart g, len = g_len g\<rparr>"
      by (auto simp add: group_setup_def)
    with that [OF gs] Some q show ?thesis by simp
  qed
qed

lemma group_setup_frame:
  assumes "group_setup U l v s = Some (a, v4, s4)"
  shows "same_setup t s4 = same_setup t s"
    and "passes (trace s4) = passes (trace s)"
    and "track_calls (trace s4) = track_calls (trace s)"
    and "left a = ident l"
proof -
  from assms obtain start g s1 where gs: "group_select U l v s = (start, g, s1)"
    and bm: "buffer_manager U l (g_right g \<noteq> None) (v\<lparr>cmap := g_map g, clear := g_clear g\<rparr>) s1
           = Some (v4, s4)"
    and a: "a = \<lparr>count = gcount v4, chanMap = cmap v4, left = ident l, right = g_right g,
               leftStart = start, rightStart = g_rightStart g, len = g_len g\<rparr>"
    by (rule group_setup_result)
  from bm obtain bs bufferSize where
    ss: "same_setup t s4 = same_setup t s1"
    and tr: "trace s4 = trace s1 @ (if mBufferSize s1 \<noteq> bufferSize
                               then [EvReinit (mNumAudioIn s1) bufferSize (mNumAudioOut s1) (bufferSize + bs)]
                               else [])"
    by (rule buffer_manager_result [where t = t])
  note f = group_select_frame [OF gs]
  show "same_setup t s4 = same_setup t s"
    by (simp add: ss f(1))
  show "passes (trace s4) = passes (trace s)"
    by (simp add: tr f(2))
  show "track_calls (trace s4) = track_calls (trace s)"
    by (simp add: tr f(2))
  show "left a = ident l" by (simp add: a)
qed

lemma process_group_call:
  assumes "process_group U l v s = Some (x, v', s')"
  obtains a v4 s4 r b where "group_setup U l v s = Some (a, v4, s4)"
    and "ProcessTrack U a \<lparr>inBuffer = inBuffer v4, outBuffer = outBuffer v4,
                                inBufPos = inBufPos v4, outBufPos = outBufPos v4\<rparr> s4
           = Some (r, b, s')"
    and "x = (case r of Inl y \<Rightarrow> Some y | Inr ok \<Rightarrow> None)"
    and "bGoodResult v' = (case r of Inl y \<Rightarrow> bGoodResult v4 | Inr ok \<Rightarrow> ok)"
proof -
  from assms obtain a v4 s4 where g: "group_setup U l v s = Some (a, v4, s4)"
    by (cases "group_setup U l v s") (auto simp add: process_group_def)
  let ?b = "\<lparr>inBuffer = inBuffer v4, outBuffer = outBuffer v4,
             inBufPos = inBufPos v4, outBufPos = outBufPos v4\<rparr>"
  show ?thesis
  proof (cases "ProcessTrack U a ?b s4")
    case None
    with assms g show ?thesis by (simp add: process_group_def)
  next
    case (Some q)
    obtain r b s5 where q: "q = (r, b, s5)" by (cases q)
    from assms g Some q have "s5 = s'"
      and "x = (case r of Inl y \<Rightarrow> Some y | Inr ok \<Rightarrow> None)"
      and "bGoodResult v' = (case r of Inl y \<Rightarrow> bGoodResult v4 | Inr ok \<Rightarrow> ok)"
      by (cases r; auto simp add: process_group_def Let_def split: if_splits)+
    with that [OF g] Some q show ?thesis by simp
  qed
qed

lemma process_group_frame:
  assumes "process_group U l v s = Some (x, v', s')"
  shows "same_setup t s' = same_setup t s"
    and "passes (trace s') = passes (trace s)"
proof -
  from assms obtain a v4 s4 r b where g: "group_setup U l v s = Some (a, v4, s4)"
    and pt: "ProcessTrack U a \<lparr>inBuffer = inBuffer v4, outBuffer = outBuffer v4,
                                inBufPos = inBufPos v4, outBufPos = outBufPos v4\<rparr> s4
           = Some (r, b, s')"
    by (rule process_group_call)
  from ProcessTrack_frame(2) [OF pt] obtain bl where
    bl: "trace s' = trace s4 @ EvProcessTrack (left a) (right a) # bl" "list_all is_block bl"
    by blast
  show "same_setup t s' = same_setup t s"
    by (simp add: ProcessTrack_frame(1) [OF pt] group_setup_frame(1) [OF g])
  show "passes (trace s') = passes (trace s)"
    by (simp add: bl blocks_projections group_setup_frame(2) [OF g])
qed

lemma visit_track_frame:
  assumes "visit_track U p v s = Some (x, v', s')"
  shows "same_setup t s' = same_setup t s"
    and "passes (trace s') = passes (trace s)"
proof -
  have "same_setup t s' = same_setup t s \<and> passes (trace s') = passes (trace s)"
  proof (cases "deref s p")
    case None
    with assms show ?thesis by (simp add: visit_track_def)
  next
    case (Some tr)
    show ?thesis
    proof (cases "IsWaveTrack tr \<and> GetSelected tr")
      case True
      with assms Some have "process_group U tr v s = Some (x, v', s')"
        by (simp add: visit_track_def)
      from process_group_frame [OF this] show ?thesis by simp
    next
      case False
      show ?thesis
      proof (cases "IsSyncLockSelected tr")
        case sl: True
        with assms Some False
        have "s' = track_upd p (\<lambda>t. t\<lparr>samples := SyncLockAdjust U (mT1 s) (dbl_add U (mT0 s) (mDuration s)) t\<rparr>) s"
          by (simp add: visit_track_def)
        then show ?thesis by (simp add: same_setup_track_upd)
      next
        case sl: False
        with assms Some False have "s' = s"
          by (simp add: visit_track_def)
        then show ?thesis by simp
      qed
    qed
  qed
  then show "same_setup t s' = same_setup t s" and "passes (trace s') = passes (trace s)"
    by simp_all
qed

lemma VisitWhile_frame:
  assumes "VisitWhile U ps v s = Some (x, v', s')"
  shows "same_setup t s' = same_setup t s \<and> passes (trace s') = passes (trace s)"
  using assms
proof (induction ps arbitrary: v s)
  case Nil
  then show ?case by simp
next
  case (Cons p ps)
  from Cons.prems obtain y v1 s1 where vt: "visit_track U p v s = Some (y, v1, s1)"
    by (cases "visit_track U p v s") auto
  note f = visit_track_frame [OF vt]
  show ?case
  proof (cases "y = None \<and> bGoodResult v1")
    case True
    with Cons.prems vt have "VisitWhile U ps v1 s1 = Some (x, v', s')"
      by simp
    from Cons.IH [OF this] f show ?thesis by simp
  next
    case False
    with Cons.prems vt have "s' = s1"
      by (cases y) (simp_all split: if_splits)
    with f show ?thesis by simp
  qed
qed

lemma ProcessPass_result:
  assumes "ProcessPass U s = Some (r, s')"
  obtains x v1 s1 where
    "VisitWhile U
       (map ident (if mNumAudioIn s > 1 then Leaders (working_list s) else working_list s))
       \<lparr>inBuffer = [], outBuffer = [], inBufPos = [], outBufPos = [],
        bGoodResult = True, cmap = replicate 3 ChannelNameEOL, gcount = 0, clear = False\<rparr>
       (s\<lparr>mBufferSize := 0, mBlockSize := 0, trace := trace s @ [EvProcessPass (GetPass s)]\<rparr>)
     = Some (x, v1, s1)"
    and "r = (case x of Some y \<Rightarrow> Inl y | None \<Rightarrow> Inr (bGoodResult v1))"
    and "s' = (if x = None \<and> bGoodResult v1 \<and> GetType U = EffectTypeGenerate
               then s1\<lparr>mT1 := dbl_add U (mT0 s1) (mDuration s1)\<rparr> else s1)"
proof -
  let ?s = "s\<lparr>mBufferSize := 0, mBlockSize := 0, trace := trace s @ [EvProcessPass (GetPass s)]\<rparr>"
  let ?v = "\<lparr>inBuffer = [], outBuffer = [], inBufPos = [], outBufPos = [],
        bGoodResult = True, cmap = replicate 3 ChannelNameEOL, gcount = 0, clear = False\<rparr> :: 'b pass_vars"
  let ?ps = "map ident (if mNumAudioIn s > 1 then Leaders (working_list s) else working_list s)"
  have pp: "ProcessPass U s =
              (case VisitWhile U ?ps ?v ?s of
                 None \<Rightarrow> None
               | Some (Some x, v1, s1) \<Rightarrow> Some (Inl x, s1)
               | Some (None, v1, s1) \<Rightarrow>
                   Some (Inr (bGoodResult v1),
                         if bGoodResult v1 \<and> GetType U = EffectTypeGenerate
                         then s1\<lparr>mT1 := dbl_add U (mT0 s1) (mDuration s1)\<rparr> else s1))"
    by (simp add: ProcessPass_def Let_def working_list_def)
  show ?thesis
  proof (cases "VisitWhile U ?ps ?v ?s")
    case None
    with assms pp show ?thesis by simp
  next
    case (Some q)
    obtain x v1 s1 where q: "q = (x, v1, s1)" by (cases q)
    from assms Some q have "r = (case x of Some y \<Rightarrow> Inl y | None \<Rightarrow> Inr (bGoodResult v1))"
      and "s' = (if x = None \<and> bGoodResult v1 \<and> GetType U = EffectTypeGenerate
               then s1\<lparr>mT1 := dbl_add U (mT0 s1) (mDuration s1)\<rparr> else s1)"
      by (cases x; simp add: pp; fail)+
    with that Some q show ?thesis by simp
  qed
qed

lemma ProcessPass_frame:
  assumes "ProcessPass U s = Some (r, s')"
  shows "same_setup t s' = same_setup t s"
    and "passes (trace s') = passes (trace s) @ [mPass s]"
proof -
  let ?s = "s\<lparr>mBufferSize := 0, mBlockSize := 0, trace := trace s @ [EvProcessPass (GetPass s)]\<rparr>"
  have ss: "same_setup t ?s = same_setup t s"
    by (simp add: same_setup_def working_list_def)
  from assms obtain ps v x v1 s1 where
    vw: "VisitWhile U ps v ?s = Some (x, v1, s1)"
    and s': "s' = (if x = None \<and> bGoodResult v1 \<and> GetType U = EffectTypeGenerate
               then s1\<lparr>mT1 := dbl_add U (mT0 s1) (mDuration s1)\<rparr> else s1)"
    by (rule ProcessPass_result)
  from VisitWhile_frame [OF vw, of t]
  have "same_setup t s1 = same_setup t ?s" "passes (trace s1) = passes (trace s) @ [mPass s]"
    by (simp_all add: GetPass_def)
  with ss have "same_setup t s1 = same_setup t s" "passes (trace s1) = passes (trace s) @ [mPass s]"
    by (simp_all only:)
  then show "same_setup t s' = same_setup t s" and "passes (trace s') = passes (trace s) @ [mPass s]"
    by (simp_all add: s' same_setup_def working_list_def)
qed

end
